theory Spec2Isabelle
  imports Main
begin

section \<open>Data model of the music module (src/categories/music.py)\<close>

text \<open>
  A \<open>Track\<close> is wavelink's track plus the requester. Python variables that hold a track
  may also hold \<open>None\<close> (\<open>current_track\<close> starts as \<open>None\<close>, and the loop may put it
  into the queue), so every place that holds a track has type \<open>track option\<close>.
\<close>

record track =
  track_id :: string
  title :: string
  uri :: string
  duration :: int
  thumb :: "string option"
  requester :: "string option"

datatype error =
    AttributeError | KeyError | OverflowError
  | NoPrivateMessage | BotMissingPermissions | CommandOnCooldown

text \<open>
  The commands that the menu's buttons resolve with \<open>bot.get_command\<close>. None of them
  takes an argument, so a command object is its name here and \<open>callback\<close> below gives
  the method it runs.
\<close>

datatype command =
    Cmd_pause | Cmd_skip | Cmd_queue_shuffle | Cmd_queue_loop | Cmd_repeat | Cmd_stop
  | Cmd_disconnect

record cmd_context =
  author :: string
  guild :: int
  ctx_channel :: int
  dm_channel :: bool
  command :: "command option"

text \<open>
  The texts sent with \<open>ctx.reply\<close>, one constructor per message of the modelled commands,
  carrying the values interpolated into the text.
\<close>

datatype reply =
    IndexOutOfRange                 \<comment> \<open>"Index out of range."\<close>
  | TrackRemoved string             \<comment> \<open>"**Track removed:** `title`."\<close>
  | TrackMoved string int int       \<comment> \<open>"**Track** `title` **moved from s to d.**"\<close>
  | NothingToLoop                   \<comment> \<open>"There's nothing to loop."\<close>
  | SingleLoopEnabled | SingleLoopDisabled
  | QueueLoopEnabled | QueueLoopDisabled
  | NothingToStop                   \<comment> \<open>"There's nothing to stop."\<close>
  | StoppedPlayer                   \<comment> \<open>"Stopped the player."\<close>
  | Disconnected                    \<comment> \<open>"**Successfully disconnected.**"\<close>
  | NothingToPause | Resumed | Paused
  | NothingToShuffle | Shuffled
  | NothingToSkip | Skipped

text \<open>Calls into the wavelink player of a guild (the playback backend).\<close>

datatype player_call =
    P_play track | P_stop | P_set_volume int | P_set_pause bool | P_disconnect

text \<open>
  Everything the module does to its collaborators is appended to a log, in program order:
  replies, player calls, the "Now playing" message, the menu's message being sent, edited
  and deleted, a loop task being created, and a command error handed to the error handlers
  by \<open>bot.invoke\<close>.
\<close>

datatype effect =
    Reply reply
  | PlayerCall int player_call
  | NowPlaying int "track option"
  | MenuSend nat
  | MenuEdit nat
  | MenuDelete nat
  | TaskCreated nat
  | CommandError command error

text \<open>
  \<open>InteractiveMenu\<close>: \<open>message\<close> is the rendered status message (\<open>None\<close> until the menu
  is started), \<open>menu_ctx\<close> the context it was started with, \<open>running\<close> whether the menu
  still listens to button presses (\<open>menus.Menu.stop\<close> ends that).
\<close>

record menu =
  message :: "nat option"
  menu_ctx :: "cmd_context option"
  running :: bool

text \<open>
  Where the loop task of a controller stands: created but not yet run; at the top of the
  \<open>while True\<close> body; suspended in \<open>queue.get()\<close>, in \<open>player.play\<close>, in \<open>channel.send\<close>, in
  the \<open>message.edit\<close> of \<open>update_menu\<close>, or in \<open>next.wait()\<close>; or ended by an exception.
\<close>

datatype loop_pc = Start | Top | InGet | InPlay | InSend | InEdit | InWait | Dead error

record controller =
  guild_id :: int
  channel :: "int option"
  next_ev :: bool
  queue :: "track option list"
  volume :: int
  is_single_loop :: bool
  is_queue_loop :: bool
  current_track :: "track option"
  menu :: menu
  pc :: loop_pc

text \<open>
  The wavelink player of a controller belongs to the backend: the calls made to it are
  logged, and what a command reads from it is an input of the command: the truth value of
  the player object (tested by \<open>repeat\<close>), \<open>is_playing\<close> and \<open>paused\<close>. The permutation that
  \<open>random.shuffle\<close> picks is an input as well, and so is what Discord knows: whether the
  bot has the permissions a command's \<open>bot_has_permissions\<close> decorators ask for in the
  context, and who owns the bot.
\<close>

record environment =
  player_truthy :: bool
  is_playing :: bool
  paused :: bool
  random_shuffle :: "track option list \<Rightarrow> track option list"
  has_permissions :: "command \<Rightarrow> cmd_context \<Rightarrow> bool"
  owner_ids :: "string list"

text \<open>The events of the node hook, each with the guild of the player it concerns.\<close>

datatype event =
    TrackStart int | TrackEnd int | TrackException int | TrackStuck int | WebsocketClosed int

text \<open>The reaction payload of a button press: the member who pressed.\<close>

record payload =
  member :: string

text \<open>
  The cog. Controllers are objects shared between the registry \<open>controllers\<close>, their loop
  task and their menu's button handlers, so they live in a store: \<open>heap\<close> maps a reference
  to the object, \<open>next_ref\<close> is the next unused reference. \<open>cooldowns\<close> holds the buckets
  that are used up.
\<close>

record music =
  controllers :: "int \<rightharpoonup> nat"
  heap :: "nat \<Rightarrow> controller"
  next_ref :: nat
  next_message :: nat
  cooldowns :: "(command \<times> int) list"
  effects :: "effect list"

definition emit :: "effect \<Rightarrow> music \<Rightarrow> music" where
  "emit e m = m\<lparr>effects := effects m @ [e]\<rparr>"

definition update :: "nat \<Rightarrow> (controller \<Rightarrow> controller) \<Rightarrow> music \<Rightarrow> music" where
  "update r f m = m\<lparr>heap := (heap m)(r := f (heap m r))\<rparr>"

section \<open>The queue (asyncio.Queue, unbounded)\<close>

definition queue_put :: "'a list \<Rightarrow> 'a \<Rightarrow> 'a list" where
  "queue_put q x = q @ [x]"

text \<open>\<open>queue.get()\<close> suspends the caller while the queue is empty: \<open>None\<close>.\<close>

fun queue_get :: "'a list \<Rightarrow> ('a \<times> 'a list) option" where
  "queue_get [] = None"
| "queue_get (x # q) = Some (x, q)"

definition qsize :: "'a list \<Rightarrow> int" where
  "qsize q = int (length q)"

text \<open>\<open>range(a, b)\<close>\<close>

definition py_range :: "int \<Rightarrow> int \<Rightarrow> int list" where
  "py_range a b = map (\<lambda>k. a + int k) [0..<nat (b - a)]"

text \<open>\<open>deque.insert(i, x)\<close>, with Python's treatment of indices out of range.\<close>

definition deque_insert :: "'a list \<Rightarrow> int \<Rightarrow> 'a \<Rightarrow> 'a list" where
  "deque_insert q i x =
     (let n = int (length q);
          j = (if i < 0 then max 0 (n + i) else min i n)
      in take (nat j) q @ [x] @ drop (nat j) q)"

text \<open>
  The first loop of \<open>queue_remove\<close> and \<open>queue_move\<close>: every element is taken from the
  queue; the one at \<open>index\<close> is kept in \<open>removed_track\<close>, the others go to \<open>fake_queue\<close>.
  The state is \<open>(queue, fake_queue, removed_track)\<close>.
\<close>

fun drain_loop :: "int list \<Rightarrow> int \<Rightarrow> 'a option list \<times> 'a option list \<times> 'a option
    \<Rightarrow> ('a option list \<times> 'a option list \<times> 'a option) option" where
  "drain_loop [] index s = Some s"
| "drain_loop (i # rest) index (q, fake_queue, removed_track) =
     (case queue_get q of
        None \<Rightarrow> None
      | Some (x, q') \<Rightarrow>
          if i = index then drain_loop rest index (q', fake_queue, x)
          else drain_loop rest index (q', queue_put fake_queue x, removed_track))"

text \<open>The second loop: the elements of \<open>fake_queue\<close> are put back.\<close>

fun refill_loop :: "int list \<Rightarrow> 'a list \<times> 'a list \<Rightarrow> ('a list \<times> 'a list) option" where
  "refill_loop [] s = Some s"
| "refill_loop (i # rest) (q, fake_queue) =
     (case queue_get fake_queue of
        None \<Rightarrow> None
      | Some (x, fake') \<Rightarrow> refill_loop rest (queue_put q x, fake'))"

text \<open>Both loops, from \<open>fake_queue = asyncio.Queue()\<close> to the end of the second loop.\<close>

definition drain_rebuild :: "'a option list \<Rightarrow> int \<Rightarrow> ('a option list \<times> 'a option) option" where
  "drain_rebuild q index =
     (let max_size = qsize q in
      case drain_loop (py_range 0 max_size) index (q, [], None) of
        None \<Rightarrow> None
      | Some (q1, fake_queue, removed_track) \<Rightarrow>
          (case refill_loop (py_range 0 (max_size - 1)) (q1, fake_queue) of
             None \<Rightarrow> None
           | Some (q2, fake') \<Rightarrow> Some (q2, removed_track)))"

section \<open>The registry\<close>

definition new_menu :: menu where
  "new_menu = \<lparr>message = None, menu_ctx = None, running = False\<rparr>"

text \<open>\<open>MusicController.__init__\<close>, without the task creation (see \<open>get_controller\<close>).\<close>

definition new_controller :: "int \<Rightarrow> controller" where
  "new_controller gid =
     \<lparr>guild_id = gid, channel = None, next_ev = False, queue = [], volume = 50,
      is_single_loop = False, is_queue_loop = False, current_track = None,
      menu = new_menu, pc = Start\<rparr>"

text \<open>
  \<open>Music.get_controller\<close>: the constructor runs only when the registry has no entry; it
  creates the loop task of the new controller.
\<close>

definition get_controller :: "int \<Rightarrow> music \<Rightarrow> nat \<times> music" where
  "get_controller gid m =
     (case controllers m gid of
        None \<Rightarrow>
          (let r = next_ref m;
               m1 = emit (TaskCreated r)
                      (m\<lparr>heap := (heap m)(r := new_controller gid), next_ref := Suc r\<rparr>)
           in (r, m1\<lparr>controllers := (controllers m1)(gid \<mapsto> r)\<rparr>))
      | Some r \<Rightarrow> (r, m))"

section \<open>Queue commands\<close>

text \<open>
  A command returns the exception it raised, if any, and the state it left. The two
  commands below take from queues in loops, so they may not return at all: \<open>None\<close>.
\<close>

definition queue_remove :: "cmd_context \<Rightarrow> int \<Rightarrow> music \<Rightarrow> (error option \<times> music) option" where
  "queue_remove ctx index0 m =
     (let (r, m1) = get_controller (guild ctx) m;
          max_size = qsize (queue (heap m1 r));
          index = index0 - 1
      in if index < 0 \<or> index > max_size - 1 then Some (None, emit (Reply IndexOutOfRange) m1)
         else case drain_rebuild (queue (heap m1 r)) index of
                None \<Rightarrow> None
              | Some (q2, removed_track) \<Rightarrow>
                  (let m2 = update r (\<lambda>c. c\<lparr>queue := q2\<rparr>) m1
                   in case removed_track of
                        None \<Rightarrow> Some (Some AttributeError, m2)
                      | Some t \<Rightarrow> Some (None, emit (Reply (TrackRemoved (title t))) m2)))"

definition queue_move :: "cmd_context \<Rightarrow> int \<Rightarrow> int \<Rightarrow> music \<Rightarrow> (error option \<times> music) option" where
  "queue_move ctx source_index0 destination_index0 m =
     (let (r, m1) = get_controller (guild ctx) m;
          max_size = qsize (queue (heap m1 r));
          source_index = source_index0 - 1;
          destination_index = destination_index0 - 1
      in if source_index < 0 \<or> source_index > max_size - 1
            \<or> destination_index < 0 \<or> destination_index > max_size - 1
         then Some (None, emit (Reply IndexOutOfRange) m1)
         else case drain_rebuild (queue (heap m1 r)) source_index of
                None \<Rightarrow> None
              | Some (q2, removed_track) \<Rightarrow>
                  (let m2 = update r (\<lambda>c. c\<lparr>queue := deque_insert q2 destination_index removed_track\<rparr>) m1
                   in case removed_track of
                        None \<Rightarrow> Some (Some AttributeError, m2)
                      | Some t \<Rightarrow>
                          Some (None, emit (Reply (TrackMoved (title t) (source_index + 1)
                                                     (destination_index + 1))) m2)))"

section \<open>The menu\<close>

text \<open>
  \<open>menus.Menu.start(ctx)\<close>: the initial message is sent and kept in \<open>message\<close>, the
  context is kept, and the menu listens to its buttons.
\<close>

definition menu_start :: "cmd_context \<Rightarrow> nat \<Rightarrow> music \<Rightarrow> music" where
  "menu_start ctx r m =
     (let mid = next_message m;
          m1 = emit (MenuSend mid) (m\<lparr>next_message := Suc mid\<rparr>)
      in update r (\<lambda>c. c\<lparr>menu := (menu c)\<lparr>message := Some mid, menu_ctx := Some ctx,
                                          running := True\<rparr>\<rparr>) m1)"

text \<open>
  \<open>dt.timedelta(milliseconds = n)\<close> raises \<open>OverflowError\<close> unless the interval has at most
  999999999 days in either direction.
\<close>

definition timedelta_ok :: "int \<Rightarrow> bool" where
  "timedelta_ok n = (- 86399999913600000 \<le> n \<and> n \<le> 86399999999999999)"

text \<open>
  \<open>InteractiveMenu.update_menu\<close>: the panel is built from the current track (its duration
  as a \<open>timedelta\<close>, the name of its requester) and from the head of the queue, which raises
  when one of them is \<open>None\<close> or the duration is too large; then the message is edited.
\<close>

definition update_menu :: "nat \<Rightarrow> music \<Rightarrow> error option \<times> music" where
  "update_menu r m =
     (let c = heap m r in
      case current_track c of
        None \<Rightarrow> (Some AttributeError, m)
      | Some t \<Rightarrow>
          if \<not> timedelta_ok (duration t) then (Some OverflowError, m)
          else if requester t = None then (Some AttributeError, m)
          else if queue c \<noteq> [] \<and> hd (queue c) = None then (Some AttributeError, m)
          else (case message (menu c) of
                  None \<Rightarrow> (Some AttributeError, m)
                | Some mid \<Rightarrow> (None, emit (MenuEdit mid) m)))"

text \<open>The tail shared by the commands: start the menu if it has no message, then refresh it.\<close>

definition show_menu :: "cmd_context \<Rightarrow> nat \<Rightarrow> music \<Rightarrow> error option \<times> music" where
  "show_menu ctx r m =
     (if message (menu (heap m r)) = None then update_menu r (menu_start ctx r m)
      else update_menu r m)"

section \<open>Commands\<close>

definition repeat :: "environment \<Rightarrow> cmd_context \<Rightarrow> music \<Rightarrow> error option \<times> music" where
  "repeat env ctx m =
     (let (r, m1) = get_controller (guild ctx) m;
          m2 = update r (\<lambda>c. c\<lparr>is_single_loop := \<not> is_single_loop c\<rparr>) m1
      in if is_single_loop (heap m2 r) \<and> \<not> player_truthy env
         then (None, update r (\<lambda>c. c\<lparr>is_single_loop := False\<rparr>) (emit (Reply NothingToLoop) m2))
         else show_menu ctx r
                (emit (Reply (if is_single_loop (heap m2 r) then SingleLoopEnabled
                              else SingleLoopDisabled)) m2))"

text \<open>\<open>ctx.invoke(self.repeat)\<close> calls the method itself; what it raises, \<open>queue_loop\<close> raises.\<close>

definition queue_loop :: "environment \<Rightarrow> cmd_context \<Rightarrow> music \<Rightarrow> error option \<times> music" where
  "queue_loop env ctx m =
     (let (r, m1) = get_controller (guild ctx) m;
          m2 = update r (\<lambda>c. c\<lparr>is_queue_loop := \<not> is_queue_loop c\<rparr>) m1;
          (err, m3) = (if is_queue_loop (heap m2 r) \<and> is_single_loop (heap m2 r)
                       then repeat env ctx m2 else (None, m2))
      in case err of
           Some e \<Rightarrow> (Some e, m3)
         | None \<Rightarrow>
             show_menu ctx r
               (emit (Reply (if is_queue_loop (heap m3 r) then QueueLoopEnabled
                             else QueueLoopDisabled)) m3))"

text \<open>\<open>while not controller.queue.empty(): await controller.queue.get()\<close>\<close>

fun clear_loop :: "'a list \<Rightarrow> 'a list" where
  "clear_loop [] = []"
| "clear_loop (x # q) = clear_loop q"

definition stop :: "environment \<Rightarrow> cmd_context \<Rightarrow> music \<Rightarrow> error option \<times> music" where
  "stop env ctx m =
     (let (r, m1) = get_controller (guild ctx) m in
      if \<not> is_playing env then (None, emit (Reply NothingToStop) m1)
      else
        (let m2 = emit (PlayerCall (guild_id (heap m1 r)) P_stop) m1;
             m3 = update r (\<lambda>c. c\<lparr>is_queue_loop := False\<rparr>) m2;
             m4 = update r (\<lambda>c. c\<lparr>is_single_loop := False\<rparr>) m3;
             m5 = update r (\<lambda>c. c\<lparr>queue := clear_loop (queue c)\<rparr>) m4
         in (None, emit (Reply StoppedPlayer) m5)))"

definition disconnect :: "cmd_context \<Rightarrow> music \<Rightarrow> error option \<times> music" where
  "disconnect ctx m =
     (let (r, m1) = get_controller (guild ctx) m;
          m2 = emit (PlayerCall (guild_id (heap m1 r)) P_stop) m1;
          m3 = update r (\<lambda>c. c\<lparr>queue := clear_loop (queue c)\<rparr>) m2;
          m4 = emit (PlayerCall (guild_id (heap m3 r)) P_disconnect) m3
      in case controllers m4 (guild ctx) of
           None \<Rightarrow> (Some KeyError, m4)
         | Some r' \<Rightarrow>
             (None, emit (Reply Disconnected) (m4\<lparr>controllers := (controllers m4)(guild ctx := None)\<rparr>)))"

definition pause :: "environment \<Rightarrow> cmd_context \<Rightarrow> music \<Rightarrow> error option \<times> music" where
  "pause env ctx m =
     (let (r, m1) = get_controller (guild ctx) m in
      if \<not> is_playing env then (None, emit (Reply NothingToPause) m1)
      else
        (let m2 = (if paused env
                   then emit (Reply Resumed) (emit (PlayerCall (guild_id (heap m1 r)) (P_set_pause False)) m1)
                   else emit (Reply Paused) (emit (PlayerCall (guild_id (heap m1 r)) (P_set_pause True)) m1))
         in show_menu ctx r m2))"

definition skip :: "environment \<Rightarrow> cmd_context \<Rightarrow> music \<Rightarrow> error option \<times> music" where
  "skip env ctx m =
     (let (r, m1) = get_controller (guild ctx) m in
      if \<not> is_playing env then (None, emit (Reply NothingToSkip) m1)
      else show_menu ctx r (emit (Reply Skipped) (emit (PlayerCall (guild_id (heap m1 r)) P_stop) m1)))"

definition queue_shuffle :: "environment \<Rightarrow> cmd_context \<Rightarrow> music \<Rightarrow> error option \<times> music" where
  "queue_shuffle env ctx m =
     (let (r, m1) = get_controller (guild ctx) m in
      if queue (heap m1 r) = [] then (None, emit (Reply NothingToShuffle) m1)
      else show_menu ctx r
             (emit (Reply Shuffled) (update r (\<lambda>c. c\<lparr>queue := random_shuffle env (queue c)\<rparr>) m1)))"

section \<open>The controller loop and the node hook\<close>

text \<open>
  \<open>await self.player.play(self.current_track)\<close>: the player reads the identifier of the
  track, so with no track the call raises before anything reaches the backend; an
  exception ends the loop task, which has no handler. Otherwise the call is made and the
  task is suspended in it.
\<close>

definition start_play :: "nat \<Rightarrow> music \<Rightarrow> music" where
  "start_play r m =
     (case current_track (heap m r) of
        None \<Rightarrow> update r (\<lambda>c. c\<lparr>pc := Dead AttributeError\<rparr>) m
      | Some t \<Rightarrow>
          update r (\<lambda>c. c\<lparr>pc := InPlay\<rparr>) (emit (PlayerCall (guild_id (heap m r)) (P_play t)) m))"

text \<open>\<open>self.current_track = await self.queue.get()\<close>, then the call of the player.\<close>

definition take_next :: "nat \<Rightarrow> music \<Rightarrow> music" where
  "take_next r m =
     (case queue_get (queue (heap m r)) of
        None \<Rightarrow> update r (\<lambda>c. c\<lparr>pc := InGet\<rparr>) m
      | Some (t, q') \<Rightarrow> start_play r (update r (\<lambda>c. c\<lparr>current_track := t, queue := q'\<rparr>) m))"

text \<open>\<open>await self.channel.send(...)\<close>: a channel that is \<open>None\<close> raises.\<close>

definition send_now_playing :: "nat \<Rightarrow> music \<Rightarrow> music" where
  "send_now_playing r m =
     (case channel (heap m r) of
        None \<Rightarrow> update r (\<lambda>c. c\<lparr>pc := Dead AttributeError\<rparr>) m
      | Some ch \<Rightarrow>
          update r (\<lambda>c. c\<lparr>pc := InSend\<rparr>) (emit (NowPlaying ch (current_track (heap m r))) m))"

text \<open>\<open>if self.is_queue_loop: await self.queue.put(self.current_track)\<close>\<close>

definition requeue :: "nat \<Rightarrow> music \<Rightarrow> music" where
  "requeue r m =
     (if is_queue_loop (heap m r)
      then update r (\<lambda>c. c\<lparr>queue := queue_put (queue c) (current_track c)\<rparr>) m
      else m)"

text \<open>
  \<open>await self.next.wait()\<close> and what follows it: with the signal set the wait returns at
  once, the track is put back under queue-loop and the body starts again; otherwise the
  task is suspended in the wait.
\<close>

definition wait_or_wake :: "nat \<Rightarrow> music \<Rightarrow> music" where
  "wait_or_wake r m =
     (if next_ev (heap m r) then update r (\<lambda>c. c\<lparr>pc := Top\<rparr>) (requeue r m)
      else update r (\<lambda>c. c\<lparr>pc := InWait\<rparr>) m)"

text \<open>
  One move of the loop task of controller \<open>r\<close>: from the point where it stands to the next
  point where it is suspended, so that other tasks (commands, the node hook) run between
  two moves and nowhere else. \<open>Top\<close>, the start of an iteration, is a point of its own; coming
  from the wait the task does not stop there, and makes its next move before any other
  task runs.
\<close>

definition loop_step :: "nat \<Rightarrow> music \<Rightarrow> music" where
  "loop_step r m =
     (let c = heap m r in
      case pc c of
        Start \<Rightarrow>
          update r (\<lambda>c. c\<lparr>pc := Top\<rparr>) (emit (PlayerCall (guild_id c) (P_set_volume (volume c))) m)
      | Top \<Rightarrow>
          (let m1 = update r (\<lambda>c. c\<lparr>next_ev := False\<rparr>) m in
           if \<not> is_single_loop (heap m1 r) then take_next r m1 else start_play r m1)
      | InGet \<Rightarrow> (if queue c = [] then m else take_next r m)
      | InPlay \<Rightarrow> send_now_playing r m
      | InSend \<Rightarrow>
          (if message (menu c) \<noteq> None
           then (case update_menu r m of
                   (Some e, m1) \<Rightarrow> update r (\<lambda>c. c\<lparr>pc := Dead e\<rparr>) m1
                 | (None, m1) \<Rightarrow> update r (\<lambda>c. c\<lparr>pc := InEdit\<rparr>) m1)
           else wait_or_wake r m)
      | InEdit \<Rightarrow> wait_or_wake r m
      | InWait \<Rightarrow> (if next_ev c then update r (\<lambda>c. c\<lparr>pc := Top\<rparr>) (requeue r m) else m)
      | Dead e \<Rightarrow> m)"

text \<open>\<open>Music.on_event_hook\<close>\<close>

fun event_guild :: "event \<Rightarrow> int" where
  "event_guild (TrackStart g) = g"
| "event_guild (TrackEnd g) = g"
| "event_guild (TrackException g) = g"
| "event_guild (TrackStuck g) = g"
| "event_guild (WebsocketClosed g) = g"

fun is_end_or_exception :: "event \<Rightarrow> bool" where
  "is_end_or_exception (TrackEnd g) = True"
| "is_end_or_exception (TrackException g) = True"
| "is_end_or_exception e = False"

definition on_event_hook :: "event \<Rightarrow> music \<Rightarrow> music" where
  "on_event_hook ev m =
     (if is_end_or_exception ev
      then (let (r, m1) = get_controller (event_guild ev) m
            in update r (\<lambda>c. c\<lparr>next_ev := True\<rparr>) m1)
      else m)"

section \<open>Invoking commands, cooldowns, and the buttons\<close>

text \<open>
  Every command above is decorated with \<open>commands.cooldown(rate = 1, per = ..., type =
  commands.BucketType.guild)\<close>: one use per period and per guild. A bucket is the command
  and the guild of the context; \<open>cooldowns\<close> lists the buckets whose use is taken. The
  passing of time, which frees a bucket, is not modelled.
\<close>

definition bucket_key :: "cmd_context \<Rightarrow> int" where
  "bucket_key ctx = guild ctx"

definition on_cooldown :: "command \<Rightarrow> cmd_context \<Rightarrow> music \<Rightarrow> bool" where
  "on_cooldown cmd ctx m = ((cmd, bucket_key ctx) \<in> set (cooldowns m))"

definition get_command :: "string \<Rightarrow> command option" where
  "get_command name =
     map_of [(''pause'', Cmd_pause), (''skip'', Cmd_skip), (''queue shuffle'', Cmd_queue_shuffle),
             (''queue loop'', Cmd_queue_loop), (''repeat'', Cmd_repeat), (''stop'', Cmd_stop),
             (''disconnect'', Cmd_disconnect)] name"

fun callback :: "environment \<Rightarrow> command \<Rightarrow> cmd_context \<Rightarrow> music \<Rightarrow> error option \<times> music" where
  "callback env Cmd_pause = pause env"
| "callback env Cmd_skip = skip env"
| "callback env Cmd_queue_shuffle = queue_shuffle env"
| "callback env Cmd_queue_loop = queue_loop env"
| "callback env Cmd_repeat = repeat env"
| "callback env Cmd_stop = stop env"
| "callback env Cmd_disconnect = disconnect"

text \<open>\<open>Music.cog_check\<close>: no command of the cog runs in a private channel.\<close>

definition cog_check :: "cmd_context \<Rightarrow> error option" where
  "cog_check ctx = (if dm_channel ctx then Some NoPrivateMessage else None)"

text \<open>
  \<open>bot.invoke(ctx)\<close>: nothing without a command. The checks come first, \<open>cog_check\<close> and
  then the command's \<open>bot_has_permissions\<close> decorators; a check that fails refuses the
  command with its bucket untouched. Then a command whose bucket is taken is refused.
  Otherwise the bucket is taken and the callback runs. Every refusal, and what the
  callback raises, goes to the error handlers. The text-command path invokes the same
  way, with the context of the message.
\<close>

definition bot_invoke :: "environment \<Rightarrow> cmd_context \<Rightarrow> music \<Rightarrow> music" where
  "bot_invoke env ctx m =
     (case command ctx of
        None \<Rightarrow> m
      | Some cmd \<Rightarrow>
          (case cog_check ctx of
             Some e \<Rightarrow> emit (CommandError cmd e) m
           | None \<Rightarrow>
               if \<not> has_permissions env cmd ctx then emit (CommandError cmd BotMissingPermissions) m
               else if on_cooldown cmd ctx m then emit (CommandError cmd CommandOnCooldown) m
               else (case callback env cmd ctx (m\<lparr>cooldowns := (cmd, bucket_key ctx) # cooldowns m\<rparr>) of
                       (None, m1) \<Rightarrow> m1
                     | (Some e, m1) \<Rightarrow> emit (CommandError cmd e) m1)))"

text \<open>\<open>ctx.command.reset_cooldown(ctx)\<close>\<close>

definition reset_cooldown :: "cmd_context \<Rightarrow> music \<Rightarrow> error option \<times> music" where
  "reset_cooldown ctx m =
     (case command ctx of
        None \<Rightarrow> (Some AttributeError, m)
      | Some cmd \<Rightarrow> (None, m\<lparr>cooldowns := removeAll (cmd, bucket_key ctx) (cooldowns m)\<rparr>))"

text \<open>\<open>InteractiveMenu.update_context\<close>: a copy of the menu's context with the author replaced.\<close>

definition update_context :: "cmd_context \<Rightarrow> payload \<Rightarrow> cmd_context" where
  "update_context ctx p = ctx\<lparr>author := member p\<rparr>"

text \<open>
  The four lines every button handler starts with, for the menu of controller \<open>r\<close>:
  \<open>ctx = self.update_context(payload)\<close>, \<open>ctx.command = self.bot.get_command(name)\<close>,
  \<open>await self.bot.invoke(ctx)\<close>, \<open>ctx.command.reset_cooldown(ctx)\<close>.
\<close>

definition press :: "environment \<Rightarrow> string \<Rightarrow> nat \<Rightarrow> payload \<Rightarrow> music \<Rightarrow> error option \<times> music" where
  "press env name r p m =
     (case menu_ctx (menu (heap m r)) of
        None \<Rightarrow> (Some AttributeError, m)
      | Some ctx0 \<Rightarrow>
          (let ctx = (update_context ctx0 p)\<lparr>command := get_command name\<rparr>
           in reset_cooldown ctx (bot_invoke env ctx m)))"

text \<open>\<open>await self.message.delete()\<close>, \<open>self.message = None\<close>, \<open>self.stop()\<close>\<close>

definition teardown :: "nat \<Rightarrow> music \<Rightarrow> error option \<times> music" where
  "teardown r m =
     (case message (menu (heap m r)) of
        None \<Rightarrow> (Some AttributeError, m)
      | Some mid \<Rightarrow>
          (None, update r (\<lambda>c. c\<lparr>menu := (menu c)\<lparr>message := None, running := False\<rparr>\<rparr>)
                   (emit (MenuDelete mid) m)))"

definition on_pause_button :: "environment \<Rightarrow> nat \<Rightarrow> payload \<Rightarrow> music \<Rightarrow> error option \<times> music" where
  "on_pause_button env r p m = press env ''pause'' r p m"

definition on_skip_button :: "environment \<Rightarrow> nat \<Rightarrow> payload \<Rightarrow> music \<Rightarrow> error option \<times> music" where
  "on_skip_button env r p m = press env ''skip'' r p m"

definition on_shuffle_button :: "environment \<Rightarrow> nat \<Rightarrow> payload \<Rightarrow> music \<Rightarrow> error option \<times> music" where
  "on_shuffle_button env r p m = press env ''queue shuffle'' r p m"

definition on_qloop_button :: "environment \<Rightarrow> nat \<Rightarrow> payload \<Rightarrow> music \<Rightarrow> error option \<times> music" where
  "on_qloop_button env r p m = press env ''queue loop'' r p m"

definition on_loop_button :: "environment \<Rightarrow> nat \<Rightarrow> payload \<Rightarrow> music \<Rightarrow> error option \<times> music" where
  "on_loop_button env r p m = press env ''repeat'' r p m"

definition on_stop_button :: "environment \<Rightarrow> nat \<Rightarrow> payload \<Rightarrow> music \<Rightarrow> error option \<times> music" where
  "on_stop_button env r p m =
     (case press env ''stop'' r p m of
        (Some e, m1) \<Rightarrow> (Some e, m1)
      | (None, m1) \<Rightarrow> teardown r m1)"

definition on_disconnect_button :: "environment \<Rightarrow> nat \<Rightarrow> payload \<Rightarrow> music \<Rightarrow> error option \<times> music" where
  "on_disconnect_button env r p m =
     (case press env ''disconnect'' r p m of
        (Some e, m1) \<Rightarrow> (Some e, m1)
      | (None, m1) \<Rightarrow> teardown r m1)"

text \<open>
  The buttons of the menu, and what \<open>menus.Menu\<close> does with a press on the message of the
  menu of controller \<open>r\<close>. A menu that is no longer running has no listener, and the press
  is dropped. \<open>InteractiveMenu\<close> keeps the \<open>reaction_check\<close> of \<open>menus.Menu\<close>, which lets a
  press through only when it comes from the member who started the menu or from an owner
  of the bot.
\<close>

datatype button =
    PauseButton | SkipButton | ShuffleButton | QLoopButton | LoopButton | StopButton
  | DisconnectButton

fun handler :: "button \<Rightarrow> environment \<Rightarrow> nat \<Rightarrow> payload \<Rightarrow> music \<Rightarrow> error option \<times> music" where
  "handler PauseButton = on_pause_button"
| "handler SkipButton = on_skip_button"
| "handler ShuffleButton = on_shuffle_button"
| "handler QLoopButton = on_qloop_button"
| "handler LoopButton = on_loop_button"
| "handler StopButton = on_stop_button"
| "handler DisconnectButton = on_disconnect_button"

definition reaction_check :: "environment \<Rightarrow> nat \<Rightarrow> payload \<Rightarrow> music \<Rightarrow> bool" where
  "reaction_check env r p m =
     (case menu_ctx (menu (heap m r)) of
        None \<Rightarrow> False
      | Some ctx0 \<Rightarrow> member p = author ctx0 \<or> member p \<in> set (owner_ids env))"

definition button_pressed :: "button \<Rightarrow> environment \<Rightarrow> nat \<Rightarrow> payload \<Rightarrow> music \<Rightarrow> music" where
  "button_pressed b env r p m =
     (if running (menu (heap m r)) \<and> reaction_check env r p m then snd (handler b env r p m)
      else m)"

text \<open>\<open>Music.__init__\<close>: an empty registry; nothing has happened yet.\<close>

definition init_music :: music where
  "init_music =
     \<lparr>controllers = Map.empty, heap = (\<lambda>r. new_controller 0), next_ref = 0, next_message = 0,
      cooldowns = [], effects = []\<rparr>"

section \<open>Example data\<close>

text \<open>A track with a given title, a command context in guild 7, and a cog in which guild 7
  has a controller (at reference 0) holding a given queue.\<close>

definition demo_track :: "string \<Rightarrow> track" where
  "demo_track name =
     \<lparr>track_id = name, title = name, uri = [], duration = 1000, thumb = None,
      requester = Some ''ann''\<rparr>"

definition demo_ctx :: cmd_context where
  "demo_ctx = \<lparr>author = ''ann'', guild = 7, ctx_channel = 3, dm_channel = False, command = None\<rparr>"

definition demo_music :: "track option list \<Rightarrow> music" where
  "demo_music q = update 0 (\<lambda>c. c\<lparr>queue := q\<rparr>) (snd (get_controller 7 init_music))"

text \<open>An environment in which the player is playing, the bot has every permission and \<open>olga\<close>
  owns the bot; and a cog in which the controller of guild 7 is connected to channel 3 and
  playing \<open>A\<close>, with \<open>B\<close> queued.\<close>

definition demo_env :: environment where
  "demo_env =
     \<lparr>player_truthy = True, is_playing = True, paused = False, random_shuffle = rev,
      has_permissions = (\<lambda>cmd ctx. True), owner_ids = [''olga'']\<rparr>"

definition demo_playing :: music where
  "demo_playing =
     update 0 (\<lambda>c. c\<lparr>channel := Some 3, current_track := Some (demo_track ''A''), pc := InWait\<rparr>)
       (demo_music [Some (demo_track ''B'')])"


text \<open>The same playing cog once the menu has been started by \<open>ann\<close>: its message is 0.\<close>

definition demo_started :: music where
  "demo_started = menu_start demo_ctx 0 demo_playing"

text \<open>The playing cog after the commands \<open>queue loop\<close> and then \<open>repeat\<close>.\<close>

definition demo_both :: music where
  "demo_both = snd (repeat demo_env demo_ctx (snd (queue_loop demo_env demo_ctx demo_playing)))"

section \<open>The two loops of the queue commands\<close>

lemma drain_loop_miss:
  "index < int k \<or> int (k + length q) \<le> index \<Longrightarrow>
   drain_loop (map int [k..<k + length q]) index (q, fake, r) = Some ([], fake @ q, r)"
proof (induction q arbitrary: k fake r)
  case Nil
  then show ?case by simp
next
  case (Cons x q)
  have "[k..<k + length (x # q)] = k # [Suc k..<Suc k + length q]"
    by (simp add: upt_conv_Cons del: upt_Suc)
  moreover have "int k \<noteq> index" using Cons.prems by auto
  moreover have "index < int (Suc k) \<or> int (Suc k + length q) \<le> index"
    using Cons.prems by auto
  ultimately show ?case
    using Cons.IH [of "Suc k" "fake @ [x]" r] by (simp add: queue_put_def)
qed

lemma drain_loop_hit:
  "int k \<le> index \<Longrightarrow> index < int (k + length q) \<Longrightarrow>
   drain_loop (map int [k..<k + length q]) index (q, fake, r) =
     Some ([], fake @ take (nat index - k) q @ drop (Suc (nat index - k)) q, q ! (nat index - k))"
proof (induction q arbitrary: k fake r)
  case Nil
  then show ?case by simp
next
  case (Cons x q)
  have up: "[k..<k + length (x # q)] = k # [Suc k..<Suc k + length q]"
    by (simp add: upt_conv_Cons del: upt_Suc)
  show ?case
  proof (cases "int k = index")
    case True
    then have "index < int (Suc k) \<or> int (Suc k + length q) \<le> index" by simp
    from drain_loop_miss [OF this, of fake x] True up show ?thesis by simp
  next
    case False
    then have lo: "int (Suc k) \<le> index" using Cons.prems by simp
    have hi: "index < int (Suc k + length q)" using Cons.prems by simp
    have idx: "nat index - k = Suc (nat index - Suc k)" using lo by linarith
    from Cons.IH [OF lo hi, of "fake @ [x]" r] False up idx show ?thesis
      by (simp add: queue_put_def)
  qed
qed

lemma refill_loop_all:
  "refill_loop (map int [k..<k + length f]) (q, f) = Some (q @ f, [])"
proof (induction f arbitrary: k q)
  case Nil
  then show ?case by simp
next
  case (Cons x f)
  have "[k..<k + length (x # f)] = k # [Suc k..<Suc k + length f]"
    by (simp add: upt_conv_Cons del: upt_Suc)
  then show ?case using Cons.IH [of "Suc k" "q @ [x]"] by (simp add: queue_put_def)
qed

text \<open>With an index in range the two loops return: nothing is lost, one element is set aside.\<close>

lemma drain_rebuild_valid:
  assumes "0 \<le> index" and "index < qsize q"
  shows "drain_rebuild q index =
           Some (take (nat index) q @ drop (Suc (nat index)) q, q ! nat index)"
proof -
  let ?rest = "take (nat index) q @ drop (Suc (nat index)) q"
  have n: "nat index < length q" using assms by (simp add: qsize_def)
  have d: "drain_loop (py_range 0 (qsize q)) index (q, [], None) = Some ([], ?rest, q ! nat index)"
    using drain_loop_hit [of 0 index q "[]" None] assms
    by (simp add: py_range_def qsize_def)
  have len: "length ?rest = length q - 1" using n by simp
  have "py_range 0 (qsize q - 1) = map int [0..<0 + length ?rest]"
    using n by (simp add: py_range_def qsize_def len nat_diff_distrib')
  then have "refill_loop (py_range 0 (qsize q - 1)) ([], ?rest) = Some (?rest, [])"
    using refill_loop_all [of 0 ?rest "[]"] by simp
  with d show ?thesis by (simp add: drain_rebuild_def Let_def)
qed

lemma get_controller_present:
  "controllers m g = Some r \<Longrightarrow> get_controller g m = (r, m)"
  by (simp add: get_controller_def)

lemma skip_nth_props:
  assumes "i < length q"
  shows "length (take i q @ drop (Suc i) q) + 1 = length q"
    and "\<forall>j<i. (take i q @ drop (Suc i) q) ! j = q ! j"
    and "\<forall>j. i \<le> j \<and> j + 1 < length q \<longrightarrow> (take i q @ drop (Suc i) q) ! j = q ! Suc j"
  using assms by (auto simp: nth_append min_def)

lemma demo_music_simps:
  "controllers (demo_music q) 7 = Some 0"
  "queue (heap (demo_music q) 0) = q"
  by (simp_all add: demo_music_def update_def get_controller_def init_music_def emit_def
      new_controller_def)

section \<open>Removing from the queue\<close>

text \<open>
  Claim C5. For a queue \<open>q\<close> and a 1-based \<open>index\<close> with \<open>1 \<le> index \<le> size\<close>, the two loops
  of \<open>queue_remove\<close> return, set aside exactly the element at that index and leave the
  others in their order: the new queue is one shorter, agrees with \<open>q\<close> before the index and
  with \<open>q\<close> shifted by one from the index on. The command stores that queue and replies
  with the title of the removed track (when the removed element is \<open>None\<close>, formatting the
  reply raises after the queue is stored). On \<open>[A, B, C]\<close>, index 2 gives \<open>[A, C]\<close> and
  removes \<open>B\<close>.
\<close>

theorem queue_remove_valid:
  assumes reg: "controllers m (guild ctx) = Some r"
      and lo: "1 \<le> index" and hi: "index \<le> qsize (queue (heap m r))"
  shows
    "(let q = queue (heap m r); i = nat index - 1; rest = take i q @ drop (Suc i) q in
       drain_rebuild q (index - 1) = Some (rest, q ! i)
     \<and> (\<forall>t. q ! i = Some t \<longrightarrow>
          queue_remove ctx index m =
            Some (None, emit (Reply (TrackRemoved (title t))) (update r (\<lambda>c. c\<lparr>queue := rest\<rparr>) m)))
     \<and> (q ! i = None \<longrightarrow>
          queue_remove ctx index m = Some (Some AttributeError, update r (\<lambda>c. c\<lparr>queue := rest\<rparr>) m))
     \<and> length rest + 1 = length q
     \<and> (\<forall>j<i. rest ! j = q ! j)
     \<and> (\<forall>j. i \<le> j \<and> j + 1 < length q \<longrightarrow> rest ! j = q ! Suc j))
     \<and> drain_rebuild [Some a, Some b, Some c] (2 - 1) = Some ([Some a, Some c], Some b)"
proof -
  let ?q = "queue (heap m r)"
  let ?i = "nat index - 1"
  let ?rest = "take ?i ?q @ drop (Suc ?i) ?q"
  have i: "nat (index - 1) = ?i" using lo by simp
  have rng: "0 \<le> index - 1" "index - 1 < qsize ?q" using lo hi by simp_all
  have il: "?i < length ?q" using lo hi by (simp add: qsize_def)
  have dr: "drain_rebuild ?q (index - 1) = Some (?rest, ?q ! ?i)"
    using drain_rebuild_valid [OF rng] i by simp
  have nb: "\<not> (index - 1 < 0 \<or> index - 1 > qsize ?q - 1)" using lo hi by simp
  have some: "\<forall>t. ?q ! ?i = Some t \<longrightarrow>
          queue_remove ctx index m =
            Some (None, emit (Reply (TrackRemoved (title t))) (update r (\<lambda>c. c\<lparr>queue := ?rest\<rparr>) m))"
    using nb dr by (simp add: queue_remove_def get_controller_present [OF reg] Let_def)
  have none: "?q ! ?i = None \<longrightarrow>
          queue_remove ctx index m = Some (Some AttributeError, update r (\<lambda>c. c\<lparr>queue := ?rest\<rparr>) m)"
    using nb dr by (simp add: queue_remove_def get_controller_present [OF reg] Let_def)
  have ex: "drain_rebuild [Some a, Some b, Some c] (2 - 1) = Some ([Some a, Some c], Some b)"
    using drain_rebuild_valid [of 1 "[Some a, Some b, Some c]"] by (simp add: qsize_def)
  show ?thesis
    unfolding Let_def
    using dr some none skip_nth_props [OF il] ex by blast
qed

theorem queue_remove_valid_witness:
  "controllers (demo_music [Some (demo_track ''A''), Some (demo_track ''B''), Some (demo_track ''C'')])
     (guild demo_ctx) = Some 0
   \<and> (1::int) \<le> 2
   \<and> 2 \<le> qsize (queue (heap (demo_music [Some (demo_track ''A''), Some (demo_track ''B''),
                                            Some (demo_track ''C'')]) 0))
   \<and> queue_remove demo_ctx 2
       (demo_music [Some (demo_track ''A''), Some (demo_track ''B''), Some (demo_track ''C'')]) =
     Some (None, emit (Reply (TrackRemoved ''B''))
       (update 0 (\<lambda>c. c\<lparr>queue := [Some (demo_track ''A''), Some (demo_track ''C'')]\<rparr>)
          (demo_music [Some (demo_track ''A''), Some (demo_track ''B''), Some (demo_track ''C'')])))"
  using queue_remove_valid [of "demo_music [Some (demo_track ''A''), Some (demo_track ''B''),
      Some (demo_track ''C'')]" demo_ctx 0 2 "0::nat" "0::nat" "0::nat"]
  by (simp add: demo_music_simps demo_ctx_def qsize_def demo_track_def Let_def)

lemma get_controller_absent:
  "controllers m g = None \<Longrightarrow>
   get_controller g m =
     (next_ref m,
      m\<lparr>heap := (heap m)(next_ref m := new_controller g), next_ref := Suc (next_ref m),
        effects := effects m @ [TaskCreated (next_ref m)],
        controllers := (controllers m)(g \<mapsto> next_ref m)\<rparr>)"
  by (simp add: get_controller_def emit_def Let_def)

section \<open>Indices out of range\<close>

text \<open>
  Claim C4. When the guild has a controller and the index given to \<open>queue_remove\<close>, or
  either index given to \<open>queue_move\<close>, lies outside \<open>[1, size]\<close>, the command returns after
  replying "Index out of range.": the store of controllers (so the queue) and the registry
  are what they were, the reply is the only effect, and no track is reported as removed or
  moved. When the guild has no controller yet, \<open>get_controller\<close> makes one with an empty
  queue, every index is out of range, and the queue stays empty.
\<close>

theorem out_of_range_unchanged:
  "(controllers m (guild ctx) = Some r \<longrightarrow>
      ((index < 1 \<or> index > qsize (queue (heap m r))) \<longrightarrow>
         (\<exists>m'. queue_remove ctx index m = Some (None, m') \<and> heap m' = heap m
               \<and> controllers m' = controllers m
               \<and> effects m' = effects m @ [Reply IndexOutOfRange]))
    \<and> ((s < 1 \<or> s > qsize (queue (heap m r)) \<or> d < 1 \<or> d > qsize (queue (heap m r))) \<longrightarrow>
         (\<exists>m'. queue_move ctx s d m = Some (None, m') \<and> heap m' = heap m
               \<and> controllers m' = controllers m
               \<and> effects m' = effects m @ [Reply IndexOutOfRange])))
   \<and> (controllers m (guild ctx) = None \<longrightarrow>
        (\<exists>m'. queue_remove ctx index m = Some (None, m') \<and> queue_move ctx s d m = Some (None, m')
              \<and> queue (heap m' (next_ref m)) = [] \<and> controllers m' (guild ctx) = Some (next_ref m)
              \<and> effects m' = effects m @ [TaskCreated (next_ref m), Reply IndexOutOfRange]))"
proof -
  have a: "controllers m (guild ctx) = Some r \<Longrightarrow> index < 1 \<or> index > qsize (queue (heap m r)) \<Longrightarrow>
      queue_remove ctx index m = Some (None, emit (Reply IndexOutOfRange) m)"
    by (auto simp: queue_remove_def get_controller_present Let_def)
  have b: "controllers m (guild ctx) = Some r \<Longrightarrow>
      s < 1 \<or> s > qsize (queue (heap m r)) \<or> d < 1 \<or> d > qsize (queue (heap m r)) \<Longrightarrow>
      queue_move ctx s d m = Some (None, emit (Reply IndexOutOfRange) m)"
    by (auto simp: queue_move_def get_controller_present Let_def)
  have c: "controllers m (guild ctx) = None \<Longrightarrow>
      queue_remove ctx index m = Some (None, emit (Reply IndexOutOfRange) (snd (get_controller (guild ctx) m)))
    \<and> queue_move ctx s d m = Some (None, emit (Reply IndexOutOfRange) (snd (get_controller (guild ctx) m)))"
    by (auto simp: queue_remove_def queue_move_def get_controller_absent Let_def qsize_def
        new_controller_def)
  show ?thesis
  proof (intro conjI impI)
    assume h: "controllers m (guild ctx) = Some r" "index < 1 \<or> index > qsize (queue (heap m r))"
    show "\<exists>m'. queue_remove ctx index m = Some (None, m') \<and> heap m' = heap m
               \<and> controllers m' = controllers m
               \<and> effects m' = effects m @ [Reply IndexOutOfRange]"
      using a [OF h] by (simp add: emit_def)
  next
    assume h: "controllers m (guild ctx) = Some r"
      "s < 1 \<or> s > qsize (queue (heap m r)) \<or> d < 1 \<or> d > qsize (queue (heap m r))"
    show "\<exists>m'. queue_move ctx s d m = Some (None, m') \<and> heap m' = heap m
               \<and> controllers m' = controllers m
               \<and> effects m' = effects m @ [Reply IndexOutOfRange]"
      using b [OF h] by (simp add: emit_def)
  next
    assume h: "controllers m (guild ctx) = None"
    show "\<exists>m'. queue_remove ctx index m = Some (None, m') \<and> queue_move ctx s d m = Some (None, m')
              \<and> queue (heap m' (next_ref m)) = [] \<and> controllers m' (guild ctx) = Some (next_ref m)
              \<and> effects m' = effects m @ [TaskCreated (next_ref m), Reply IndexOutOfRange]"
      using c [OF h] by (simp add: emit_def get_controller_absent [OF h] new_controller_def)
  qed
qed

theorem out_of_range_unchanged_witness:
  "controllers (demo_music [Some (demo_track ''A''), Some (demo_track ''B'')]) (guild demo_ctx) = Some 0
   \<and> (3::int) > qsize (queue (heap (demo_music [Some (demo_track ''A''), Some (demo_track ''B'')]) 0))
   \<and> (0::int) < 1
   \<and> (\<exists>m'. queue_remove demo_ctx 3 (demo_music [Some (demo_track ''A''), Some (demo_track ''B'')])
               = Some (None, m')
            \<and> heap m' = heap (demo_music [Some (demo_track ''A''), Some (demo_track ''B'')])
            \<and> effects m' = effects (demo_music [Some (demo_track ''A''), Some (demo_track ''B'')])
                              @ [Reply IndexOutOfRange])
   \<and> (\<exists>m'. queue_move demo_ctx 1 0 (demo_music [Some (demo_track ''A''), Some (demo_track ''B'')])
               = Some (None, m')
            \<and> heap m' = heap (demo_music [Some (demo_track ''A''), Some (demo_track ''B'')])
            \<and> effects m' = effects (demo_music [Some (demo_track ''A''), Some (demo_track ''B'')])
                              @ [Reply IndexOutOfRange])
   \<and> controllers init_music (guild demo_ctx) = None
   \<and> (\<exists>m'. queue_remove demo_ctx 1 init_music = Some (None, m') \<and> queue (heap m' 0) = [])"
proof -
  let ?m = "demo_music [Some (demo_track ''A''), Some (demo_track ''B'')]"
  have reg: "controllers ?m (guild demo_ctx) = Some 0"
    by (simp add: demo_music_simps demo_ctx_def)
  have big: "(3::int) > qsize (queue (heap ?m 0))" by (simp add: demo_music_simps qsize_def)
  have none: "controllers init_music (guild demo_ctx) = None" by (simp add: init_music_def)
  have nr: "next_ref init_music = 0" by (simp add: init_music_def)
  show ?thesis
    using out_of_range_unchanged [of ?m demo_ctx 0 3 1 0]
      out_of_range_unchanged [of init_music demo_ctx 0 1 1 1] reg big none nr
    by auto
qed

section \<open>Moving within the queue\<close>

lemma deque_insert_in_range:
  "0 \<le> i \<Longrightarrow> i \<le> int (length q) \<Longrightarrow>
   deque_insert q i x = take (nat i) q @ [x] @ drop (nat i) q"
  by (simp add: deque_insert_def Let_def min_def)

lemma insert_nth_props:
  assumes "k \<le> length rest"
  shows "length (take k rest @ [x] @ drop k rest) = Suc (length rest)"
    and "(take k rest @ [x] @ drop k rest) ! k = x"
    and "take k (take k rest @ [x] @ drop k rest) @ drop (Suc k) (take k rest @ [x] @ drop k rest) = rest"
  using assms by (auto simp: nth_append min_def)

lemma queue_move_in_range:
  assumes reg: "controllers m (guild ctx) = Some r"
      and slo: "1 \<le> s" and shi: "s \<le> qsize (queue (heap m r))"
      and dlo: "1 \<le> d" and dhi: "d \<le> qsize (queue (heap m r))"
  shows "queue_move ctx s d m =
        (let q = queue (heap m r); i = nat s - 1; k = nat d - 1;
             rest = take i q @ drop (Suc i) q;
             res = take k rest @ [q ! i] @ drop k rest;
             m2 = update r (\<lambda>c. c\<lparr>queue := res\<rparr>) m in
         case q ! i of None \<Rightarrow> Some (Some AttributeError, m2)
         | Some t \<Rightarrow> Some (None, emit (Reply (TrackMoved (title t) s d)) m2))"
proof -
  let ?q = "queue (heap m r)"
  let ?i = "nat s - 1"
  let ?k = "nat d - 1"
  let ?rest = "take ?i ?q @ drop (Suc ?i) ?q"
  have i: "nat (s - 1) = ?i" and k: "nat (d - 1) = ?k" using slo dlo by simp_all
  have rng: "0 \<le> s - 1" "s - 1 < qsize ?q" using slo shi by simp_all
  have il: "?i < length ?q" using slo shi by (simp add: qsize_def)
  have dr: "drain_rebuild ?q (s - 1) = Some (?rest, ?q ! ?i)"
    using drain_rebuild_valid [OF rng] i by simp
  have len: "int (length ?rest) = qsize ?q - 1" using il by (simp add: qsize_def)
  have di: "deque_insert ?rest (d - 1) (?q ! ?i) = take ?k ?rest @ [?q ! ?i] @ drop ?k ?rest"
  proof -
    have r0: "0 \<le> d - 1" using dlo by linarith
    have r1: "d - 1 \<le> int (length ?rest)" using dhi len by linarith
    show ?thesis using deque_insert_in_range [OF r0 r1, of "?q ! ?i"] by (simp only: k)
  qed
  have nb: "\<not> (s - 1 < 0 \<or> s - 1 > qsize ?q - 1 \<or> d - 1 < 0 \<or> d - 1 > qsize ?q - 1)"
    using slo shi dlo dhi by simp
  have gc: "get_controller (guild ctx) m = (r, m)" by (rule get_controller_present [OF reg])
  show ?thesis
    unfolding queue_move_def gc Let_def prod.case
    by (simp only: nb if_False dr option.case prod.case di diff_add_cancel)
qed

text \<open>
  Claim C3. For 1-based \<open>s\<close> and \<open>d\<close> in \<open>[1, size]\<close>, \<open>queue_move\<close> returns with the queue
  \<open>res\<close> obtained by taking the element at \<open>s\<close> out and putting it at position \<open>d\<close> of the
  remaining, shorter list: \<open>res\<close> has the length of the old queue, holds the moved element
  at \<open>d\<close>, and without that position is the old queue without position \<open>s\<close>, so all other
  tracks keep their order. (When the moved element is \<open>None\<close>, formatting the reply raises
  after the queue is stored.) On \<open>[A, B, C, D, E]\<close>, moving 3 to 1 gives \<open>[C, A, B, D, E]\<close>.
\<close>

theorem queue_move_valid:
  assumes reg: "controllers m (guild ctx) = Some r"
      and slo: "1 \<le> s" and shi: "s \<le> qsize (queue (heap m r))"
      and dlo: "1 \<le> d" and dhi: "d \<le> qsize (queue (heap m r))"
  shows
    "(let q = queue (heap m r); i = nat s - 1; k = nat d - 1;
          rest = take i q @ drop (Suc i) q;
          res = take k rest @ [q ! i] @ drop k rest in
       (\<forall>t. q ! i = Some t \<longrightarrow>
          queue_move ctx s d m =
            Some (None, emit (Reply (TrackMoved (title t) s d)) (update r (\<lambda>c. c\<lparr>queue := res\<rparr>) m)))
     \<and> (q ! i = None \<longrightarrow>
          queue_move ctx s d m = Some (Some AttributeError, update r (\<lambda>c. c\<lparr>queue := res\<rparr>) m))
     \<and> length res = length q
     \<and> res ! k = q ! i
     \<and> take k res @ drop (Suc k) res = rest)
     \<and> (queue (heap m r) = [Some ta, Some tb, Some tc, Some td, Some te] \<longrightarrow>
          queue_move ctx 3 1 m =
            Some (None, emit (Reply (TrackMoved (title tc) 3 1))
              (update r (\<lambda>c. c\<lparr>queue := [Some tc, Some ta, Some tb, Some td, Some te]\<rparr>) m)))"
proof -
  let ?q = "queue (heap m r)"
  let ?i = "nat s - 1"
  let ?k = "nat d - 1"
  let ?rest = "take ?i ?q @ drop (Suc ?i) ?q"
  let ?res = "take ?k ?rest @ [?q ! ?i] @ drop ?k ?rest"
  note gen = queue_move_in_range [OF reg slo shi dlo dhi, unfolded Let_def]
  have il: "?i < length ?q" using slo shi by (simp add: qsize_def)
  have lr: "length ?rest + 1 = length ?q" by (rule skip_nth_props(1) [OF il])
  have kl: "?k \<le> length ?rest" using dlo dhi lr by (simp only: qsize_def) linarith
  have some: "\<forall>t. ?q ! ?i = Some t \<longrightarrow>
          queue_move ctx s d m =
            Some (None, emit (Reply (TrackMoved (title t) s d)) (update r (\<lambda>c. c\<lparr>queue := ?res\<rparr>) m))"
  proof (intro allI impI)
    fix t assume "?q ! ?i = Some t"
    then show "queue_move ctx s d m =
            Some (None, emit (Reply (TrackMoved (title t) s d)) (update r (\<lambda>c. c\<lparr>queue := ?res\<rparr>) m))"
      by (simp only: gen option.case)
  qed
  have none: "?q ! ?i = None \<longrightarrow>
          queue_move ctx s d m = Some (Some AttributeError, update r (\<lambda>c. c\<lparr>queue := ?res\<rparr>) m)"
  proof
    assume "?q ! ?i = None"
    then show "queue_move ctx s d m = Some (Some AttributeError, update r (\<lambda>c. c\<lparr>queue := ?res\<rparr>) m)"
      by (simp only: gen option.case)
  qed
  have len: "length ?res = length ?q"
    using insert_nth_props(1) [OF kl, of "?q ! ?i"] lr by linarith
  have ex: "queue (heap m r) = [Some ta, Some tb, Some tc, Some td, Some te] \<longrightarrow>
          queue_move ctx 3 1 m =
            Some (None, emit (Reply (TrackMoved (title tc) 3 1))
              (update r (\<lambda>c. c\<lparr>queue := [Some tc, Some ta, Some tb, Some td, Some te]\<rparr>) m))"
  proof
    assume q: "queue (heap m r) = [Some ta, Some tb, Some tc, Some td, Some te]"
    have sz: "(3::int) \<le> qsize (queue (heap m r))" "(1::int) \<le> qsize (queue (heap m r))"
      by (simp_all add: q qsize_def)
    have n3: "nat 3 - 1 = Suc (Suc 0)" and n1: "nat 1 - 1 = 0" by simp_all
    show "queue_move ctx 3 1 m =
            Some (None, emit (Reply (TrackMoved (title tc) 3 1))
              (update r (\<lambda>c. c\<lparr>queue := [Some tc, Some ta, Some tb, Some td, Some te]\<rparr>) m))"
      unfolding queue_move_in_range [OF reg _ sz(1) _ sz(2), simplified, unfolded Let_def] q
      by simp
  qed
  show ?thesis
    unfolding Let_def
    using some none len insert_nth_props(2,3) [OF kl, of "?q ! ?i"] ex by blast
qed


theorem queue_move_valid_witness:
  "controllers (demo_music [Some (demo_track ''A''), Some (demo_track ''B''), Some (demo_track ''C''), Some (demo_track ''D''), Some (demo_track ''E'')]) (guild demo_ctx) = Some 0
   \<and> (1::int) \<le> 3
   \<and> 3 \<le> qsize (queue (heap (demo_music [Some (demo_track ''A''), Some (demo_track ''B''), Some (demo_track ''C''), Some (demo_track ''D''), Some (demo_track ''E'')]) 0))
   \<and> (1::int) \<le> 1
   \<and> 1 \<le> qsize (queue (heap (demo_music [Some (demo_track ''A''), Some (demo_track ''B''), Some (demo_track ''C''), Some (demo_track ''D''), Some (demo_track ''E'')]) 0))
   \<and> queue_move demo_ctx 3 1 (demo_music [Some (demo_track ''A''), Some (demo_track ''B''), Some (demo_track ''C''), Some (demo_track ''D''), Some (demo_track ''E'')]) =
       Some (None, emit (Reply (TrackMoved ''C'' 3 1))
         (update 0 (\<lambda>c. c\<lparr>queue := [Some (demo_track ''C''), Some (demo_track ''A''), Some (demo_track ''B''), Some (demo_track ''D''), Some (demo_track ''E'')]\<rparr>)
           (demo_music [Some (demo_track ''A''), Some (demo_track ''B''), Some (demo_track ''C''), Some (demo_track ''D''), Some (demo_track ''E'')])))"
proof -
  let ?m = "demo_music [Some (demo_track ''A''), Some (demo_track ''B''), Some (demo_track ''C''), Some (demo_track ''D''), Some (demo_track ''E'')]"
  have reg: "controllers ?m (guild demo_ctx) = Some 0"
    by (simp add: demo_music_simps demo_ctx_def)
  have q: "queue (heap ?m 0) = [Some (demo_track ''A''), Some (demo_track ''B''),
      Some (demo_track ''C''), Some (demo_track ''D''), Some (demo_track ''E'')]"
    by (simp add: demo_music_simps)
  have sz: "(3::int) \<le> qsize (queue (heap ?m 0))" "(1::int) \<le> qsize (queue (heap ?m 0))"
    by (simp_all add: q qsize_def)
  have t: "title (demo_track ''C'') = ''C''" by (simp add: demo_track_def)
  from queue_move_valid [OF reg _ sz(1) _ sz(2), of "demo_track ''A''" "demo_track ''B''"
      "demo_track ''C''" "demo_track ''D''" "demo_track ''E''"] q
  have "queue_move demo_ctx 3 1 ?m =
       Some (None, emit (Reply (TrackMoved (title (demo_track ''C'')) 3 1))
         (update 0 (\<lambda>c. c\<lparr>queue := [Some (demo_track ''C''), Some (demo_track ''A''),
            Some (demo_track ''B''), Some (demo_track ''D''), Some (demo_track ''E'')]\<rparr>) ?m))"
    by simp
  with reg sz t show ?thesis by simp
qed

section \<open>Looking up and removing controllers\<close>

lemma update_simps [simp]:
  "heap (update r f m) = (heap m)(r := f (heap m r))"
  "controllers (update r f m) = controllers m"
  "effects (update r f m) = effects m"
  "next_ref (update r f m) = next_ref m"
  "next_message (update r f m) = next_message m"
  "cooldowns (update r f m) = cooldowns m"
  by (simp_all add: update_def)

lemma emit_simps [simp]:
  "heap (emit e m) = heap m"
  "controllers (emit e m) = controllers m"
  "effects (emit e m) = effects m @ [e]"
  "next_ref (emit e m) = next_ref m"
  "next_message (emit e m) = next_message m"
  "cooldowns (emit e m) = cooldowns m"
  by (simp_all add: emit_def)

lemma get_controller_registers:
  "controllers (snd (get_controller g m)) g = Some (fst (get_controller g m))"
  by (cases "controllers m g") (simp_all add: get_controller_present get_controller_absent)

text \<open>
  Claim C10. \<open>get_controller\<close> is idempotent. When the registry has a controller for the
  guild, that same reference is returned and the whole state is as before: nothing is
  constructed and no loop task is created. Only when the entry is absent is a controller
  constructed (at the next unused reference) and its loop task created, once; asking again
  returns that controller and creates nothing more.
\<close>

theorem get_controller_idempotent:
  "(controllers m g = Some r \<longrightarrow> get_controller g m = (r, m))
   \<and> (controllers m g = None \<longrightarrow>
        fst (get_controller g m) = next_ref m
      \<and> heap (snd (get_controller g m)) (next_ref m) = new_controller g
      \<and> next_ref (snd (get_controller g m)) = Suc (next_ref m)
      \<and> effects (snd (get_controller g m)) = effects m @ [TaskCreated (next_ref m)])
   \<and> get_controller g (snd (get_controller g m)) = get_controller g m"
proof -
  have "get_controller g (snd (get_controller g m)) = get_controller g m"
    using get_controller_present [OF get_controller_registers, of g m] by simp
  then show ?thesis
    by (simp add: get_controller_present get_controller_absent)
qed

theorem get_controller_idempotent_witness:
  "controllers (demo_music []) 7 = Some 0
   \<and> get_controller 7 (demo_music []) = (0, demo_music [])
   \<and> controllers init_music 7 = None
   \<and> fst (get_controller 7 init_music) = 0
   \<and> effects (snd (get_controller 7 init_music)) = [TaskCreated 0]
   \<and> effects (snd (get_controller 7 (snd (get_controller 7 init_music)))) = [TaskCreated 0]"
  using get_controller_idempotent [of "demo_music []" 7 0]
    get_controller_idempotent [of init_music 7 0]
  by (simp add: demo_music_simps init_music_def)

lemma clear_loop_empty [simp]: "clear_loop q = []"
  by (induction q) simp_all

lemma disconnect_result:
  "disconnect ctx m =
     (let (r, m1) = get_controller (guild ctx) m;
          m4 = emit (PlayerCall (guild_id (heap m1 r)) P_disconnect)
                 (update r (\<lambda>c. c\<lparr>queue := []\<rparr>)
                    (emit (PlayerCall (guild_id (heap m1 r)) P_stop) m1))
      in (None, emit (Reply Disconnected) (m4\<lparr>controllers := (controllers m4)(guild ctx := None)\<rparr>)))"
proof -
  obtain r m1 where g: "get_controller (guild ctx) m = (r, m1)" by (cases "get_controller (guild ctx) m")
  have "controllers m1 (guild ctx) = Some r"
    using get_controller_registers [of "guild ctx" m] g by simp
  then show ?thesis
    by (simp add: disconnect_def g Let_def)
qed

text \<open>
  Claim C9. \<open>disconnect\<close> returns normally and leaves the registry without an entry for the
  guild. The next \<open>get_controller\<close> for the guild constructs a controller at a reference
  that was not in use before (so it is none of the controllers allocated earlier), with
  volume 50 and an empty queue, and creates its loop task.
\<close>

theorem disconnect_then_fresh:
  "fst (disconnect ctx m) = None
   \<and> controllers (snd (disconnect ctx m)) (guild ctx) = None
   \<and> (let m1 = snd (disconnect ctx m); (r2, m2) = get_controller (guild ctx) m1 in
        r2 = next_ref m1
      \<and> next_ref m \<le> r2
      \<and> (\<forall>r. controllers m (guild ctx) = Some r \<and> r < next_ref m \<longrightarrow> r2 \<noteq> r)
      \<and> controllers m2 (guild ctx) = Some r2
      \<and> heap m2 r2 = new_controller (guild ctx)
      \<and> volume (heap m2 r2) = 50
      \<and> queue (heap m2 r2) = []
      \<and> effects m2 = effects m1 @ [TaskCreated r2])"
proof -
  obtain r m1 where g: "get_controller (guild ctx) m = (r, m1)" by (cases "get_controller (guild ctx) m")
  have nr: "next_ref m \<le> next_ref m1"
    using g by (cases "controllers m (guild ctx)")
      (auto simp: get_controller_present get_controller_absent)
  let ?d = "snd (disconnect ctx m)"
  have none: "controllers ?d (guild ctx) = None"
    by (simp add: disconnect_result g Let_def)
  have nd: "next_ref ?d = next_ref m1"
    by (simp add: disconnect_result g Let_def)
  have "fst (disconnect ctx m) = None" by (simp add: disconnect_result g Let_def)
  moreover have "next_ref m \<le> next_ref ?d" using nr nd by simp
  ultimately show ?thesis
    using none by (auto simp: get_controller_absent [OF none] Let_def new_controller_def)
qed

theorem disconnect_then_fresh_witness:
  "controllers (update 0 (\<lambda>c. c\<lparr>volume := 120\<rparr>) (demo_music [Some (demo_track ''A'')])) (guild demo_ctx)
     = Some 0
   \<and> (0::nat) < next_ref (update 0 (\<lambda>c. c\<lparr>volume := 120\<rparr>) (demo_music [Some (demo_track ''A'')]))
   \<and> volume (heap (update 0 (\<lambda>c. c\<lparr>volume := 120\<rparr>) (demo_music [Some (demo_track ''A'')])) 0) = 120
   \<and> (let m1 = snd (disconnect demo_ctx
                  (update 0 (\<lambda>c. c\<lparr>volume := 120\<rparr>) (demo_music [Some (demo_track ''A'')])));
           (r2, m2) = get_controller (guild demo_ctx) m1
       in r2 = 1 \<and> r2 \<noteq> 0 \<and> volume (heap m2 r2) = 50 \<and> queue (heap m2 r2) = [])"
proof -
  let ?m = "update 0 (\<lambda>c. c\<lparr>volume := 120\<rparr>) (demo_music [Some (demo_track ''A'')])"
  have reg: "controllers ?m (guild demo_ctx) = Some 0"
    by (simp add: demo_music_simps demo_ctx_def)
  have nr: "next_ref ?m = 1"
    by (simp add: demo_music_def get_controller_def init_music_def Let_def)
  have nd: "next_ref (snd (disconnect demo_ctx ?m)) = 1"
    using nr by (simp add: disconnect_result get_controller_present [OF reg] Let_def)
  show ?thesis
    using disconnect_then_fresh [of demo_ctx ?m] reg nr nd
    by (auto simp: Let_def split: prod.splits)
qed

section \<open>The loop flags\<close>

lemma update_menu_keeps:
  "heap (snd (update_menu r m)) = heap m"
  "controllers (snd (update_menu r m)) = controllers m"
  by (simp_all add: update_menu_def Let_def split: option.splits)

lemma menu_start_keeps:
  "is_single_loop (heap (menu_start ctx r m) r') = is_single_loop (heap m r')"
  "is_queue_loop (heap (menu_start ctx r m) r') = is_queue_loop (heap m r')"
  "controllers (menu_start ctx r m) = controllers m"
  by (simp_all add: menu_start_def Let_def)

lemma show_menu_keeps:
  "is_single_loop (heap (snd (show_menu ctx r m)) r') = is_single_loop (heap m r')"
  "is_queue_loop (heap (snd (show_menu ctx r m)) r') = is_queue_loop (heap m r')"
  "controllers (snd (show_menu ctx r m)) = controllers m"
  by (simp_all add: show_menu_def update_menu_keeps menu_start_keeps)

lemma repeat_flags:
  assumes reg: "controllers m (guild ctx) = Some r"
  shows "is_queue_loop (heap (snd (repeat env ctx m)) r) = is_queue_loop (heap m r)"
    and "is_single_loop (heap (snd (repeat env ctx m)) r) =
           (\<not> is_single_loop (heap m r) \<and> player_truthy env)"
    and "controllers (snd (repeat env ctx m)) = controllers m"
  by (auto simp: repeat_def get_controller_present [OF reg] Let_def show_menu_keeps)

lemma queue_loop_flags:
  assumes reg: "controllers m (guild ctx) = Some r"
  shows "is_queue_loop (heap (snd (queue_loop env ctx m)) r) = (\<not> is_queue_loop (heap m r))"
    and "is_single_loop (heap (snd (queue_loop env ctx m)) r) =
           (is_single_loop (heap m r) \<and> is_queue_loop (heap m r))"
proof -
  let ?m2 = "update r (\<lambda>c. c\<lparr>is_queue_loop := \<not> is_queue_loop c\<rparr>) m"
  have reg2: "controllers ?m2 (guild ctx) = Some r" using reg by simp
  note rf = repeat_flags [OF reg2, of env]
  show "is_queue_loop (heap (snd (queue_loop env ctx m)) r) = (\<not> is_queue_loop (heap m r))"
    using rf
    by (auto simp: queue_loop_def get_controller_present [OF reg] Let_def show_menu_keeps
        split: prod.splits option.splits)
  show "is_single_loop (heap (snd (queue_loop env ctx m)) r) =
           (is_single_loop (heap m r) \<and> is_queue_loop (heap m r))"
    using rf
    by (auto simp: queue_loop_def get_controller_present [OF reg] Let_def show_menu_keeps
        split: prod.splits option.splits)
qed


lemma get_controller_again:
  "get_controller g (snd (get_controller g m)) = (fst (get_controller g m), snd (get_controller g m))"
  using get_controller_present [OF get_controller_registers, of g m] by simp

lemma repeat_via:
  "repeat env ctx m = repeat env ctx (snd (get_controller (guild ctx) m))"
  by (simp add: repeat_def get_controller_again split_beta)

lemma queue_loop_via:
  "queue_loop env ctx m = queue_loop env ctx (snd (get_controller (guild ctx) m))"
  by (simp add: queue_loop_def get_controller_again split_beta)

text \<open>
  The queue-loop toggle keeps the two flags exclusive: after it the two flags of the
  guild's controller are never both true, and enabling queue-loop while single-loop is on
  turns single-loop off. The single-loop toggle has no such guard: it leaves
  \<open>is_queue_loop\<close> as it is.
\<close>

theorem queue_loop_excludes_single:
  "\<not> (is_single_loop (heap (snd (queue_loop env ctx m)) (fst (get_controller (guild ctx) m)))
      \<and> is_queue_loop (heap (snd (queue_loop env ctx m)) (fst (get_controller (guild ctx) m))))
   \<and> (is_single_loop (heap (snd (get_controller (guild ctx) m)) (fst (get_controller (guild ctx) m)))
      \<and> \<not> is_queue_loop (heap (snd (get_controller (guild ctx) m)) (fst (get_controller (guild ctx) m)))
      \<longrightarrow> is_queue_loop (heap (snd (queue_loop env ctx m)) (fst (get_controller (guild ctx) m)))
        \<and> \<not> is_single_loop (heap (snd (queue_loop env ctx m)) (fst (get_controller (guild ctx) m))))
   \<and> is_queue_loop (heap (snd (repeat env ctx m)) (fst (get_controller (guild ctx) m)))
       = is_queue_loop (heap (snd (get_controller (guild ctx) m)) (fst (get_controller (guild ctx) m)))"
proof -
  let ?r = "fst (get_controller (guild ctx) m)"
  let ?m0 = "snd (get_controller (guild ctx) m)"
  have reg: "controllers ?m0 (guild ctx) = Some ?r" by (rule get_controller_registers)
  note q = queue_loop_flags [OF reg, of env, folded queue_loop_via]
  note p = repeat_flags [OF reg, of env, folded repeat_via]
  show ?thesis using q p by auto
qed

theorem queue_loop_excludes_single_witness:
  "is_single_loop (heap (snd (get_controller (guild demo_ctx) (update 0 (\<lambda>c. c\<lparr>is_single_loop := True\<rparr>) demo_playing))) 0)
   \<and> \<not> is_queue_loop (heap (snd (get_controller (guild demo_ctx) (update 0 (\<lambda>c. c\<lparr>is_single_loop := True\<rparr>) demo_playing))) 0)
   \<and> is_queue_loop (heap (snd (queue_loop demo_env demo_ctx (update 0 (\<lambda>c. c\<lparr>is_single_loop := True\<rparr>) demo_playing))) 0)
   \<and> \<not> is_single_loop (heap (snd (queue_loop demo_env demo_ctx (update 0 (\<lambda>c. c\<lparr>is_single_loop := True\<rparr>) demo_playing))) 0)"
proof -
  let ?m = "update 0 (\<lambda>c. c\<lparr>is_single_loop := True\<rparr>) demo_playing"
  have reg: "controllers ?m (guild demo_ctx) = Some 0"
    by (simp add: demo_playing_def demo_music_simps demo_ctx_def)
  have g: "get_controller (guild demo_ctx) ?m = (0, ?m)" by (rule get_controller_present [OF reg])
  have f: "is_single_loop (heap ?m 0)" "\<not> is_queue_loop (heap ?m 0)"
    by (simp_all add: demo_playing_def demo_music_def get_controller_def init_music_def
        new_controller_def Let_def)
  show ?thesis
    using queue_loop_excludes_single [of demo_env demo_ctx ?m] f
    by (simp add: g)
qed

section \<open>The node hook\<close>

lemma on_event_hook_end:
  "on_event_hook (TrackEnd g) m =
     update (fst (get_controller g m)) (\<lambda>c. c\<lparr>next_ev := True\<rparr>) (snd (get_controller g m))"
  by (simp add: on_event_hook_def split_beta)

lemma on_event_hook_exception:
  "on_event_hook (TrackException g) m =
     update (fst (get_controller g m)) (\<lambda>c. c\<lparr>next_ev := True\<rparr>) (snd (get_controller g m))"
  by (simp add: on_event_hook_def split_beta)

lemma get_controller_pc:
  "pc (heap (snd (get_controller g m)) r') = Dead e \<Longrightarrow> pc (heap m r') = Dead e"
  by (cases "controllers m g")
    (auto simp: get_controller_present get_controller_absent new_controller_def split: if_splits)

text \<open>
  Claim C6. The node hook does the same for a track exception as for a track end: the
  resulting states are equal, and in both the finish signal of the guild's controller is
  set. The hook ends no loop task (a loop that is dead after the hook was dead before it),
  and a loop waiting in \<open>next.wait()\<close> wakes after a track exception exactly as after a track
  end: it goes back to the top of its body, having put the current track back when
  queue-loop is on.
\<close>

theorem track_error_like_finish:
  "on_event_hook (TrackException g) m = on_event_hook (TrackEnd g) m
   \<and> next_ev (heap (on_event_hook (TrackException g) m) (fst (get_controller g m)))
   \<and> (\<forall>r' e. pc (heap (on_event_hook (TrackException g) m) r') = Dead e \<longrightarrow> pc (heap m r') = Dead e)
   \<and> (controllers m g = Some r \<and> pc (heap m r) = InWait \<longrightarrow>
        pc (heap (loop_step r (on_event_hook (TrackException g) m)) r) = Top
      \<and> queue (heap (loop_step r (on_event_hook (TrackException g) m)) r) =
          (if is_queue_loop (heap m r) then queue (heap m r) @ [current_track (heap m r)]
           else queue (heap m r))
      \<and> loop_step r (on_event_hook (TrackException g) m) = loop_step r (on_event_hook (TrackEnd g) m))"
proof -
  have same: "on_event_hook (TrackException g) m = on_event_hook (TrackEnd g) m"
    by (simp add: on_event_hook_end on_event_hook_exception)
  have set: "next_ev (heap (on_event_hook (TrackException g) m) (fst (get_controller g m)))"
    by (simp add: on_event_hook_exception)
  have alive: "\<forall>r' e. pc (heap (on_event_hook (TrackException g) m) r') = Dead e \<longrightarrow> pc (heap m r') = Dead e"
    by (auto simp: on_event_hook_exception dest: get_controller_pc split: if_splits)
  have wake: "controllers m g = Some r \<and> pc (heap m r) = InWait \<longrightarrow>
        pc (heap (loop_step r (on_event_hook (TrackException g) m)) r) = Top
      \<and> queue (heap (loop_step r (on_event_hook (TrackException g) m)) r) =
          (if is_queue_loop (heap m r) then queue (heap m r) @ [current_track (heap m r)]
           else queue (heap m r))"
    by (auto simp: on_event_hook_exception get_controller_present loop_step_def requeue_def Let_def
        queue_put_def)
  show ?thesis using same set alive wake by simp
qed

theorem track_error_like_finish_witness:
  "controllers demo_playing 7 = Some 0 \<and> pc (heap demo_playing 0) = InWait
   \<and> \<not> next_ev (heap demo_playing 0)
   \<and> next_ev (heap (on_event_hook (TrackException 7) demo_playing) 0)
   \<and> pc (heap (loop_step 0 (on_event_hook (TrackException 7) demo_playing)) 0) = Top
   \<and> pc (heap (on_event_hook (TrackException 7) (update 0 (\<lambda>c. c\<lparr>pc := Dead AttributeError\<rparr>) demo_playing)) 0)
        = Dead AttributeError
   \<and> pc (heap (update 0 (\<lambda>c. c\<lparr>pc := Dead AttributeError\<rparr>) demo_playing) 0) = Dead AttributeError"
proof -
  have reg: "controllers demo_playing 7 = Some 0"
    by (simp add: demo_playing_def demo_music_simps)
  have f: "pc (heap demo_playing 0) = InWait" "\<not> next_ev (heap demo_playing 0)"
    by (simp_all add: demo_playing_def demo_music_def get_controller_def init_music_def
        new_controller_def Let_def)
  let ?d = "update 0 (\<lambda>c. c\<lparr>pc := Dead AttributeError\<rparr>) demo_playing"
  have regd: "controllers ?d 7 = Some 0" using reg by simp
  have d: "pc (heap (on_event_hook (TrackException 7) ?d) 0) = Dead AttributeError"
    by (simp add: on_event_hook_exception get_controller_present [OF regd])
  show ?thesis
    using track_error_like_finish [of 7 demo_playing 0] track_error_like_finish [of 7 ?d 0]
      reg f d
    by (auto simp: get_controller_present [OF reg])
qed

section \<open>One iteration of the controller loop\<close>


lemma update_twice: "update r f (update r g m) = update r (\<lambda>c. f (g c)) m"
  by (simp add: update_def)

lemma update_emit: "update r f (emit e m) = emit e (update r f m)"
  by (simp add: update_def emit_def)

lemma start_play_some:
  "current_track (heap m r) = Some t \<Longrightarrow>
   start_play r m = update r (\<lambda>c. c\<lparr>pc := InPlay\<rparr>) (emit (PlayerCall (guild_id (heap m r)) (P_play t)) m)"
  by (simp add: start_play_def)

lemma step_top_take:
  assumes "pc (heap m r) = Top" "\<not> is_single_loop (heap m r)" "queue (heap m r) = Some t # q"
  shows "loop_step r m =
    update r (\<lambda>c. c\<lparr>next_ev := False, current_track := Some t, queue := q, pc := InPlay\<rparr>)
      (emit (PlayerCall (guild_id (heap m r)) (P_play t)) m)"
  using assms
  by (simp add: loop_step_def Let_def take_next_def start_play_def update_twice update_emit)


lemma step_top_single:
  assumes "pc (heap m r) = Top" "is_single_loop (heap m r)" "current_track (heap m r) = Some t"
  shows "loop_step r m =
    update r (\<lambda>c. c\<lparr>next_ev := False, pc := InPlay\<rparr>)
      (emit (PlayerCall (guild_id (heap m r)) (P_play t)) m)"
  using assms by (simp add: loop_step_def Let_def start_play_def update_twice update_emit)




lemma step_play:
  "pc (heap m r) = InPlay \<Longrightarrow> channel (heap m r) = Some ch \<Longrightarrow>
   loop_step r m = update r (\<lambda>c. c\<lparr>pc := InSend\<rparr>) (emit (NowPlaying ch (current_track (heap m r))) m)"
  by (simp add: loop_step_def Let_def send_now_playing_def)

lemma update_menu_ok:
  assumes "message (menu (heap m r)) = Some mid" "current_track (heap m r) = Some t"
    "timedelta_ok (duration t)" "requester t \<noteq> None"
    "queue (heap m r) = [] \<or> hd (queue (heap m r)) \<noteq> None"
  shows "update_menu r m = (None, emit (MenuEdit mid) m)"
  using assms by (auto simp: update_menu_def Let_def)

lemma step_send_menu:
  assumes "pc (heap m r) = InSend" "message (menu (heap m r)) = Some mid"
    "current_track (heap m r) = Some t"
    "timedelta_ok (duration t)" "requester t \<noteq> None"
    "queue (heap m r) = [] \<or> hd (queue (heap m r)) \<noteq> None"
  shows "loop_step r m = update r (\<lambda>c. c\<lparr>pc := InEdit\<rparr>) (emit (MenuEdit mid) m)"
  using assms(1,2) update_menu_ok [OF assms(2-6)]
  by (simp add: loop_step_def Let_def)

lemma step_send_wait:
  "pc (heap m r) = InSend \<Longrightarrow> message (menu (heap m r)) = None \<Longrightarrow> \<not> next_ev (heap m r) \<Longrightarrow>
   loop_step r m = update r (\<lambda>c. c\<lparr>pc := InWait\<rparr>) m"
  by (simp add: loop_step_def Let_def wait_or_wake_def)

lemma step_edit_wait:
  "pc (heap m r) = InEdit \<Longrightarrow> \<not> next_ev (heap m r) \<Longrightarrow>
   loop_step r m = update r (\<lambda>c. c\<lparr>pc := InWait\<rparr>) m"
  by (simp add: loop_step_def Let_def wait_or_wake_def)

lemma step_wait_stay:
  "pc (heap m r) = InWait \<Longrightarrow> \<not> next_ev (heap m r) \<Longrightarrow> loop_step r m = m"
  by (simp add: loop_step_def Let_def)

lemma step_wake:
  assumes "pc (heap m r) = InWait \<or> pc (heap m r) = InEdit
           \<or> (pc (heap m r) = InSend \<and> message (menu (heap m r)) = None)"
      and "next_ev (heap m r)"
  shows "loop_step r m = update r (\<lambda>c. c\<lparr>pc := Top\<rparr>) (requeue r m)"
  using assms by (auto simp: loop_step_def Let_def wait_or_wake_def)

lemma requeue_fields:
  "queue (heap (requeue r m) r) =
     (if is_queue_loop (heap m r) then queue (heap m r) @ [current_track (heap m r)]
      else queue (heap m r))"
  "current_track (heap (requeue r m) r) = current_track (heap m r)"
  "effects (requeue r m) = effects m"
  by (simp_all add: requeue_def queue_put_def)


lemma full_iteration:
  assumes top: "pc (heap m r) = Top" and ch: "channel (heap m r) = Some ch"
      and src: "(\<not> is_single_loop (heap m r) \<and> queue (heap m r) = Some t # q)
                \<or> (is_single_loop (heap m r) \<and> current_track (heap m r) = Some t \<and> queue (heap m r) = q)"
      and panel: "message (menu (heap m r)) \<noteq> None \<longrightarrow>
                    timedelta_ok (duration t) \<and> requester t \<noteq> None \<and> (q = [] \<or> hd q \<noteq> None)"
  shows "loop_step r (loop_step r (loop_step r (loop_step r m))) =
     update r (\<lambda>c. c\<lparr>next_ev := False, current_track := Some t, queue := q, pc := InWait\<rparr>)
       (m\<lparr>effects := effects m @ [PlayerCall (guild_id (heap m r)) (P_play t), NowPlaying ch (Some t)]
                          @ (case message (menu (heap m r)) of None \<Rightarrow> [] | Some mid \<Rightarrow> [MenuEdit mid])\<rparr>)"
proof -
  let ?g = "guild_id (heap m r)"
  let ?m1 = "update r (\<lambda>c. c\<lparr>next_ev := False, current_track := Some t, queue := q, pc := InPlay\<rparr>)
      (emit (PlayerCall ?g (P_play t)) m)"
  have s1: "loop_step r m = ?m1"
  proof -
    from src show ?thesis
    proof
      assume "\<not> is_single_loop (heap m r) \<and> queue (heap m r) = Some t # q"
      then show ?thesis using step_top_take [OF top] by simp
    next
      assume a: "is_single_loop (heap m r) \<and> current_track (heap m r) = Some t \<and> queue (heap m r) = q"
      then have "(heap m r)\<lparr>next_ev := False, pc := InPlay\<rparr>
          = (heap m r)\<lparr>next_ev := False, current_track := Some t, queue := q, pc := InPlay\<rparr>"
        by (cases "heap m r") simp
      then have "update r (\<lambda>c. c\<lparr>next_ev := False, pc := InPlay\<rparr>) (emit (PlayerCall ?g (P_play t)) m) = ?m1"
        by (simp add: update_def emit_def)
      then show ?thesis using step_top_single [OF top, of t] a by simp
    qed
  qed
  let ?m2 = "update r (\<lambda>c. c\<lparr>pc := InSend\<rparr>) (emit (NowPlaying ch (Some t)) ?m1)"
  have s2: "loop_step r ?m1 = ?m2"
    using step_play [of ?m1 r ch] ch by simp
  show ?thesis
  proof (cases "message (menu (heap m r))")
    case None
    let ?m3 = "update r (\<lambda>c. c\<lparr>pc := InWait\<rparr>) ?m2"
    have s3: "loop_step r ?m2 = ?m3"
      using step_send_wait [of ?m2 r] None by simp
    have s4: "loop_step r ?m3 = ?m3"
      using step_wait_stay [of ?m3 r] by simp
    have chain: "loop_step r (loop_step r (loop_step r (loop_step r m))) = ?m3"
      by (simp only: s1 s2 s3 s4)
    have fin: "?m3 = update r (\<lambda>c. c\<lparr>next_ev := False, current_track := Some t, queue := q, pc := InWait\<rparr>)
       (m\<lparr>effects := effects m @ [PlayerCall ?g (P_play t), NowPlaying ch (Some t)]\<rparr>)"
      by (simp add: update_def emit_def)
    show ?thesis unfolding chain None using fin by simp
  next
    case (Some mid)
    let ?m3 = "update r (\<lambda>c. c\<lparr>pc := InEdit\<rparr>) (emit (MenuEdit mid) ?m2)"
    have ok: "timedelta_ok (duration t)" "requester t \<noteq> None" "q = [] \<or> hd q \<noteq> None"
      using panel Some by simp_all
    have s3: "loop_step r ?m2 = ?m3"
      using step_send_menu [of ?m2 r mid t] Some ok by simp
    let ?m4 = "update r (\<lambda>c. c\<lparr>pc := InWait\<rparr>) ?m3"
    have s4: "loop_step r ?m3 = ?m4"
      using step_edit_wait [of ?m3 r] by simp
    have chain: "loop_step r (loop_step r (loop_step r (loop_step r m))) = ?m4"
      by (simp only: s1 s2 s3 s4)
    have fin: "?m4 = update r (\<lambda>c. c\<lparr>next_ev := False, current_track := Some t, queue := q, pc := InWait\<rparr>)
       (m\<lparr>effects := effects m @ [PlayerCall ?g (P_play t), NowPlaying ch (Some t)] @ [MenuEdit mid]\<rparr>)"
      by (simp add: update_def emit_def)
    show ?thesis unfolding chain Some using fin by simp
  qed
qed


lemma demo_started_simps:
  "menu_ctx (menu (heap demo_started 0)) = Some demo_ctx"
  "message (menu (heap demo_started 0)) = Some 0"
  "running (menu (heap demo_started 0))"
  "next_ref demo_started = 1"
  "controllers demo_started 7 = Some 0"
  "cooldowns demo_started = []"
  "guild_id (heap demo_started 0) = 7"
  "current_track (heap demo_started 0) = Some (demo_track ''A'')"
  "queue (heap demo_started 0) = [Some (demo_track ''B'')]"
  "channel (heap demo_started 0) = Some 3"
  "\<not> is_single_loop (heap demo_started 0)"
  "\<not> is_queue_loop (heap demo_started 0)"
  "pc (heap demo_started 0) = InWait"
  "\<not> next_ev (heap demo_started 0)"
  by (simp_all add: demo_started_def menu_start_def demo_playing_def demo_music_def
      get_controller_def init_music_def new_controller_def new_menu_def Let_def)

lemma demo_track_simps:
  "timedelta_ok (duration (demo_track n))" "requester (demo_track n) \<noteq> None"
  "title (demo_track n) = n"
  by (simp_all add: demo_track_def timedelta_ok_def)



section \<open>Both loop flags on\<close>

lemma demo_both_simps:
  "fst (queue_loop demo_env demo_ctx demo_playing) = None"
  "fst (repeat demo_env demo_ctx (snd (queue_loop demo_env demo_ctx demo_playing))) = None"
  "controllers demo_both 7 = Some 0"
  "is_single_loop (heap demo_both 0)"
  "is_queue_loop (heap demo_both 0)"
  "pc (heap demo_both 0) = InWait"
  "current_track (heap demo_both 0) = Some (demo_track ''A'')"
  "queue (heap demo_both 0) = [Some (demo_track ''B'')]"
  "channel (heap demo_both 0) = Some 3"
  "message (menu (heap demo_both 0)) = Some 0"
  by (simp_all add: demo_both_def repeat_def queue_loop_def get_controller_def init_music_def
      demo_env_def demo_ctx_def demo_playing_def demo_music_def new_controller_def new_menu_def
      show_menu_def update_menu_def menu_start_def Let_def demo_track_def timedelta_ok_def)

lemma requeue_keeps:
  "pc (heap (requeue r m) r') = pc (heap m r')"
  "is_single_loop (heap (requeue r m) r') = is_single_loop (heap m r')"
  "is_queue_loop (heap (requeue r m) r') = is_queue_loop (heap m r')"
  "channel (heap (requeue r m) r') = channel (heap m r')"
  "menu (heap (requeue r m) r') = menu (heap m r')"
  "next_ev (heap (requeue r m) r') = next_ev (heap m r')"
  "controllers (requeue r m) = controllers m"
  by (simp_all add: requeue_def update_def)

lemma finish_wakes:
  assumes reg: "controllers m g = Some r" and w: "pc (heap m r) = InWait"
  shows "loop_step r (on_event_hook (TrackEnd g) m)
         = update r (\<lambda>c. c\<lparr>pc := Top\<rparr>) (requeue r (update r (\<lambda>c. c\<lparr>next_ev := True\<rparr>) m))"
proof -
  have h: "on_event_hook (TrackEnd g) m = update r (\<lambda>c. c\<lparr>next_ev := True\<rparr>) m"
    by (simp add: on_event_hook_end get_controller_present [OF reg])
  show ?thesis
    unfolding h using w by (intro step_wake) simp_all
qed

text \<open>
  Claim C2.  The two flags can be true together.  \<open>queue_loop\<close> turns single-loop off when it
  turns queue-loop on, but \<open>repeat\<close> has no such guard: it toggles \<open>is_single_loop\<close> without
  looking at \<open>is_queue_loop\<close>.  After the command \<open>queue loop\<close> and then the command \<open>repeat\<close>,
  both of which succeed, both flags are on; this holds from the initial cog and from a cog that
  is playing track A with track B queued.  The loop then runs with both: at the end of A the
  track is appended to the queue, and since single-loop keeps the current track, A is played
  again without anything being taken from the queue; at its next end A is appended once more,
  so the queue grows by one copy of A at every replay.
\<close>
theorem both_loops_on_after_toggles:
  "fst (queue_loop demo_env demo_ctx demo_playing) = None
   \<and> fst (repeat demo_env demo_ctx (snd (queue_loop demo_env demo_ctx demo_playing))) = None
   \<and> is_single_loop (heap demo_both 0) \<and> is_queue_loop (heap demo_both 0)
   \<and> is_single_loop
        (heap (snd (repeat demo_env demo_ctx (snd (queue_loop demo_env demo_ctx init_music)))) 0)
   \<and> is_queue_loop
        (heap (snd (repeat demo_env demo_ctx (snd (queue_loop demo_env demo_ctx init_music)))) 0)
   \<and> current_track (heap demo_both 0) = Some (demo_track ''A'')
   \<and> queue (heap demo_both 0) = [Some (demo_track ''B'')]
   \<and> queue (heap (loop_step 0 (on_event_hook (TrackEnd 7) demo_both)) 0)
       = [Some (demo_track ''B''), Some (demo_track ''A'')]
   \<and> pc (heap (loop_step 0 (loop_step 0 (loop_step 0 (loop_step 0
           (loop_step 0 (on_event_hook (TrackEnd 7) demo_both)))))) 0) = InWait
   \<and> current_track (heap (loop_step 0 (loop_step 0 (loop_step 0 (loop_step 0
           (loop_step 0 (on_event_hook (TrackEnd 7) demo_both)))))) 0) = Some (demo_track ''A'')
   \<and> queue (heap (loop_step 0 (on_event_hook (TrackEnd 7)
         (loop_step 0 (loop_step 0 (loop_step 0 (loop_step 0
           (loop_step 0 (on_event_hook (TrackEnd 7) demo_both)))))))) 0)
       = [Some (demo_track ''B''), Some (demo_track ''A''), Some (demo_track ''A'')]"
proof -
  let ?A = "demo_track ''A''" and ?B = "demo_track ''B''"
  let ?b = "loop_step 0 (on_event_hook (TrackEnd 7) demo_both)"
  have init: "is_single_loop
        (heap (snd (repeat demo_env demo_ctx (snd (queue_loop demo_env demo_ctx init_music)))) 0)"
      "is_queue_loop
        (heap (snd (repeat demo_env demo_ctx (snd (queue_loop demo_env demo_ctx init_music)))) 0)"
    by (simp_all add: repeat_def queue_loop_def get_controller_def init_music_def
      demo_env_def demo_ctx_def new_controller_def new_menu_def
      show_menu_def update_menu_def menu_start_def Let_def)
  have b_eq: "?b = update 0 (\<lambda>c. c\<lparr>pc := Top\<rparr>)
                    (requeue 0 (update 0 (\<lambda>c. c\<lparr>next_ev := True\<rparr>) demo_both))"
    by (rule finish_wakes [OF demo_both_simps(3) demo_both_simps(6)])
  have bf: "pc (heap ?b 0) = Top" "is_single_loop (heap ?b 0)"
    "current_track (heap ?b 0) = Some ?A" "queue (heap ?b 0) = [Some ?B, Some ?A]"
    "channel (heap ?b 0) = Some 3" "message (menu (heap ?b 0)) = Some 0"
    "controllers ?b 7 = Some 0" "is_queue_loop (heap ?b 0)"
    unfolding b_eq by (simp_all add: requeue_fields requeue_keeps demo_both_simps)
  let ?c = "loop_step 0 (loop_step 0 (loop_step 0 (loop_step 0 ?b)))"
  have c_eq: "?c = update 0 (\<lambda>c. c\<lparr>next_ev := False, current_track := Some ?A,
                                   queue := [Some ?B, Some ?A], pc := InWait\<rparr>)
       (?b\<lparr>effects := effects ?b @ [PlayerCall (guild_id (heap ?b 0)) (P_play ?A), NowPlaying 3 (Some ?A)]
                          @ (case message (menu (heap ?b 0)) of None \<Rightarrow> [] | Some mid \<Rightarrow> [MenuEdit mid])\<rparr>)"
    by (rule full_iteration [OF bf(1) bf(5)]) (simp_all add: bf demo_track_simps)
  have cf: "pc (heap ?c 0) = InWait" "current_track (heap ?c 0) = Some ?A"
    "queue (heap ?c 0) = [Some ?B, Some ?A]" "controllers ?c 7 = Some 0"
    "is_queue_loop (heap ?c 0)"
    unfolding c_eq by (simp_all add: bf)
  let ?d = "loop_step 0 (on_event_hook (TrackEnd 7) ?c)"
  have d_eq: "?d = update 0 (\<lambda>c. c\<lparr>pc := Top\<rparr>)
                    (requeue 0 (update 0 (\<lambda>c. c\<lparr>next_ev := True\<rparr>) ?c))"
    by (rule finish_wakes [OF cf(4) cf(1)])
  have df: "queue (heap ?d 0) = [Some ?B, Some ?A, Some ?A]"
    unfolding d_eq by (simp add: requeue_fields cf)
  from demo_both_simps(1,2,4,5) init demo_both_simps(7,8) bf(4) cf(1,2) df
  show ?thesis by (intro conjI)
qed

section \<open>Tearing down the menu\<close>

lemma get_controller_keeps:
  "r < next_ref m \<Longrightarrow> heap (snd (get_controller g m)) r = heap m r"
  by (cases "controllers m g") (simp_all add: get_controller_present get_controller_absent)

lemma get_controller_next_ref:
  "next_ref m \<le> next_ref (snd (get_controller g m))"
  by (cases "controllers m g") (simp_all add: get_controller_present get_controller_absent)

lemma get_controller_cooldowns:
  "cooldowns (snd (get_controller g m)) = cooldowns m"
  by (cases "controllers m g") (simp_all add: get_controller_present get_controller_absent)

lemma stop_keeps_menu:
  "r < next_ref m \<Longrightarrow> menu (heap (snd (stop env ctx m)) r) = menu (heap m r)"
  "next_ref m \<le> next_ref (snd (stop env ctx m))"
  "cooldowns (snd (stop env ctx m)) = cooldowns m"
  using get_controller_keeps [of r m "guild ctx"] get_controller_next_ref [of m "guild ctx"]
    get_controller_cooldowns [of "guild ctx" m]
  by (auto simp: stop_def Let_def split_beta)

lemma disconnect_keeps_menu:
  "r < next_ref m \<Longrightarrow> menu (heap (snd (disconnect ctx m)) r) = menu (heap m r)"
  "next_ref m \<le> next_ref (snd (disconnect ctx m))"
  "cooldowns (snd (disconnect ctx m)) = cooldowns m"
  using get_controller_keeps [of r m "guild ctx"] get_controller_next_ref [of m "guild ctx"]
    get_controller_cooldowns [of "guild ctx" m]
  by (auto simp: disconnect_result Let_def split_beta)

lemma bot_invoke_stop_keeps_menu:
  assumes "command ctx = Some cmd" and "cmd = Cmd_stop \<or> cmd = Cmd_disconnect" and "r < next_ref m"
  shows "menu (heap (bot_invoke env ctx m) r) = menu (heap m r)"
proof -
  let ?m1 = "m\<lparr>cooldowns := (cmd, bucket_key ctx) # cooldowns m\<rparr>"
  have r1: "r < next_ref ?m1" using assms(3) by simp
  have "menu (heap (snd (callback env cmd ctx ?m1)) r) = menu (heap m r)"
    using assms(2) stop_keeps_menu(1) [OF r1, of env ctx] disconnect_keeps_menu(1) [OF r1, of ctx]
    by auto
  then show ?thesis
    using assms(1) by (auto simp: bot_invoke_def split: prod.splits option.splits)
qed

lemma get_command_names:
  "get_command ''pause'' = Some Cmd_pause"
  "get_command ''skip'' = Some Cmd_skip"
  "get_command ''queue shuffle'' = Some Cmd_queue_shuffle"
  "get_command ''queue loop'' = Some Cmd_queue_loop"
  "get_command ''repeat'' = Some Cmd_repeat"
  "get_command ''stop'' = Some Cmd_stop"
  "get_command ''disconnect'' = Some Cmd_disconnect"
  by (simp_all add: get_command_def)

lemma press_result:
  assumes "menu_ctx (menu (heap m r)) = Some ctx0" and "get_command name = Some cmd"
  shows "press env name r p m =
     (None, (bot_invoke env (ctx0\<lparr>author := member p, command := Some cmd\<rparr>) m)
        \<lparr>cooldowns := removeAll (cmd, guild ctx0)
            (cooldowns (bot_invoke env (ctx0\<lparr>author := member p, command := Some cmd\<rparr>) m))\<rparr>)"
  using assms by (simp add: press_def update_context_def reset_cooldown_def bucket_key_def Let_def)

lemma teardown_after_press:
  assumes ctx: "menu_ctx (menu (heap m r)) = Some ctx0"
      and msg: "message (menu (heap m r)) = Some mid"
      and alloc: "r < next_ref m"
      and nm: "get_command name = Some cmd" and cmd: "cmd = Cmd_stop \<or> cmd = Cmd_disconnect"
  shows "\<exists>m1. press env name r p m = (None, m1)
     \<and> (case press env name r p m of (Some e, m1) \<Rightarrow> (Some e, m1) | (None, m1) \<Rightarrow> teardown r m1)
         = (None, update r (\<lambda>c. c\<lparr>menu := (menu c)\<lparr>message := None, running := False\<rparr>\<rparr>)
                    (emit (MenuDelete mid) m1))"
proof -
  let ?ctx = "ctx0\<lparr>author := member p, command := Some cmd\<rparr>"
  let ?m1 = "(bot_invoke env ?ctx m)\<lparr>cooldowns := removeAll (cmd, guild ctx0) (cooldowns (bot_invoke env ?ctx m))\<rparr>"
  have p: "press env name r p m = (None, ?m1)" by (rule press_result [OF ctx nm])
  have "menu (heap ?m1 r) = menu (heap m r)"
    using bot_invoke_stop_keeps_menu [of ?ctx cmd r m env] cmd alloc by simp
  then have "message (menu (heap ?m1 r)) = Some mid" using msg by simp
  then have "teardown r ?m1 = (None, update r (\<lambda>c. c\<lparr>menu := (menu c)\<lparr>message := None, running := False\<rparr>\<rparr>)
                    (emit (MenuDelete mid) ?m1))"
    by (simp add: teardown_def)
  with p show ?thesis by simp
qed

lemma button_pressed_cases:
  assumes "menu_ctx (menu (heap m r)) = Some ctx0"
  shows "running (menu (heap m r)) \<Longrightarrow> member p = author ctx0 \<or> member p \<in> set (owner_ids env) \<Longrightarrow>
           button_pressed b env r p m = snd (handler b env r p m)"
    and "\<not> (member p = author ctx0 \<or> member p \<in> set (owner_ids env)) \<Longrightarrow>
           button_pressed b env r p m = m"
    and "\<not> running (menu (heap m r)) \<Longrightarrow> button_pressed b env r p m = m"
  using assms by (simp_all add: button_pressed_def reaction_check_def)

text \<open>
  Claim C7, as amended.  For a started menu (it has its context and its message) of an
  allocated controller, the stop button and the disconnect button each return normally
  with the menu torn down: the message reference is \<open>None\<close>, the last effect is the deletion
  of the message the menu held, the menu no longer runs, and every later button press on
  it is dropped.  A press reaches the handler when the menu runs and the member who pressed
  started the menu or owns the bot; a press of anybody else is dropped.  The \<open>stop\<close> command
  itself leaves the menu of every allocated controller as it was and deletes no message.
\<close>
theorem buttons_tear_down:
  assumes ctx: "menu_ctx (menu (heap m r)) = Some ctx0"
      and msg: "message (menu (heap m r)) = Some mid"
      and alloc: "r < next_ref m"
      and b: "b = StopButton \<or> b = DisconnectButton"
  shows "fst (handler b env r p m) = None
     \<and> message (menu (heap (snd (handler b env r p m)) r)) = None
     \<and> \<not> running (menu (heap (snd (handler b env r p m)) r))
     \<and> last (effects (snd (handler b env r p m))) = MenuDelete mid
     \<and> (\<forall>b' env' p'. button_pressed b' env' r p' (snd (handler b env r p m)) = snd (handler b env r p m))
     \<and> menu (heap (snd (stop env ctx' m)) r) = menu (heap m r)
     \<and> MenuDelete mid \<notin> set (drop (length (effects m)) (effects (snd (stop env ctx' m))))
     \<and> (running (menu (heap m r)) \<and> (member p = author ctx0 \<or> member p \<in> set (owner_ids env)) \<longrightarrow>
          button_pressed b env r p m = snd (handler b env r p m))
     \<and> (\<not> (member p = author ctx0 \<or> member p \<in> set (owner_ids env)) \<longrightarrow>
          button_pressed b env r p m = m)"
proof -
  have h: "\<exists>m1. handler b env r p m =
      (None, update r (\<lambda>c. c\<lparr>menu := (menu c)\<lparr>message := None, running := False\<rparr>\<rparr>)
                    (emit (MenuDelete mid) m1))"
  proof -
    from b show ?thesis
    proof
      assume "b = StopButton"
      then show ?thesis
        using teardown_after_press [OF ctx msg alloc get_command_names(6), of env p]
        by (auto simp: on_stop_button_def)
    next
      assume "b = DisconnectButton"
      then show ?thesis
        using teardown_after_press [OF ctx msg alloc get_command_names(7), of env p]
        by (auto simp: on_disconnect_button_def)
    qed
  qed
  then obtain m1 where r: "handler b env r p m =
      (None, update r (\<lambda>c. c\<lparr>menu := (menu c)\<lparr>message := None, running := False\<rparr>\<rparr>)
                    (emit (MenuDelete mid) m1))" by blast
  have s1: "menu (heap (snd (stop env ctx' m)) r) = menu (heap m r)"
    by (rule stop_keeps_menu(1) [OF alloc])
  have s2: "MenuDelete mid \<notin> set (drop (length (effects m)) (effects (snd (stop env ctx' m))))"
    by (cases "controllers m (guild ctx')")
      (auto simp: stop_def Let_def get_controller_present get_controller_absent)
  have s3: "running (menu (heap m r)) \<and> (member p = author ctx0 \<or> member p \<in> set (owner_ids env)) \<longrightarrow>
          button_pressed b env r p m = snd (handler b env r p m)"
    using button_pressed_cases(1) [OF ctx] by blast
  have s4: "\<not> (member p = author ctx0 \<or> member p \<in> set (owner_ids env)) \<longrightarrow>
          button_pressed b env r p m = m"
    using button_pressed_cases(2) [OF ctx] by blast
  have first: "fst (handler b env r p m) = None
     \<and> message (menu (heap (snd (handler b env r p m)) r)) = None
     \<and> \<not> running (menu (heap (snd (handler b env r p m)) r))
     \<and> last (effects (snd (handler b env r p m))) = MenuDelete mid
     \<and> (\<forall>b' env' p'. button_pressed b' env' r p' (snd (handler b env r p m)) = snd (handler b env r p m))"
    by (simp add: r button_pressed_def)
  from first s1 s2 s3 s4 show ?thesis by blast
qed

theorem buttons_tear_down_witness:
  "menu_ctx (menu (heap demo_started 0)) = Some demo_ctx
   \<and> message (menu (heap demo_started 0)) = Some 0
   \<and> running (menu (heap demo_started 0))
   \<and> (0::nat) < next_ref demo_started
   \<and> author demo_ctx = ''ann'' \<and> ''olga'' \<in> set (owner_ids demo_env)
   \<and> fst (handler StopButton demo_env 0 \<lparr>member = ''ann''\<rparr> demo_started) = None
   \<and> button_pressed StopButton demo_env 0 \<lparr>member = ''ann''\<rparr> demo_started
        = snd (handler StopButton demo_env 0 \<lparr>member = ''ann''\<rparr> demo_started)
   \<and> message (menu (heap (button_pressed StopButton demo_env 0 \<lparr>member = ''ann''\<rparr> demo_started) 0)) = None
   \<and> \<not> running (menu (heap (button_pressed StopButton demo_env 0 \<lparr>member = ''ann''\<rparr> demo_started) 0))
   \<and> last (effects (button_pressed DisconnectButton demo_env 0 \<lparr>member = ''olga''\<rparr> demo_started))
        = MenuDelete 0
   \<and> button_pressed PauseButton demo_env 0 \<lparr>member = ''ann''\<rparr>
         (button_pressed StopButton demo_env 0 \<lparr>member = ''ann''\<rparr> demo_started)
        = button_pressed StopButton demo_env 0 \<lparr>member = ''ann''\<rparr> demo_started
   \<and> button_pressed StopButton demo_env 0 \<lparr>member = ''bob''\<rparr> demo_started = demo_started"
proof -
  have a: "author demo_ctx = ''ann''" "''olga'' \<in> set (owner_ids demo_env)"
    "''bob'' \<notin> set (owner_ids demo_env)"
    by (simp_all add: demo_ctx_def demo_env_def)
  note s = buttons_tear_down [OF demo_started_simps(1) demo_started_simps(2), of StopButton demo_env
      "\<lparr>member = ''ann''\<rparr>" demo_ctx]
  note d = buttons_tear_down [OF demo_started_simps(1) demo_started_simps(2), of DisconnectButton demo_env
      "\<lparr>member = ''olga''\<rparr>" demo_ctx]
  note f = buttons_tear_down [OF demo_started_simps(1) demo_started_simps(2), of StopButton demo_env
      "\<lparr>member = ''bob''\<rparr>" demo_ctx]
  have bs: "button_pressed StopButton demo_env 0 \<lparr>member = ''ann''\<rparr> demo_started
        = snd (handler StopButton demo_env 0 \<lparr>member = ''ann''\<rparr> demo_started)"
    using s a by (simp add: demo_started_simps)
  have bd: "button_pressed DisconnectButton demo_env 0 \<lparr>member = ''olga''\<rparr> demo_started
        = snd (handler DisconnectButton demo_env 0 \<lparr>member = ''olga''\<rparr> demo_started)"
    using d a by (simp add: demo_started_simps)
  have bf: "button_pressed StopButton demo_env 0 \<lparr>member = ''bob''\<rparr> demo_started = demo_started"
    using f a by (simp add: demo_started_simps)
  show ?thesis
    unfolding bs bd bf
    using s d a by (simp add: demo_started_simps)
qed

text \<open>
  Claim C7 as stated fails for the explicit \<open>stop\<close> command: on a playing cog with a started
  menu it stops the player and replies, and the menu still holds its message, still runs,
  and still hands a button press of the member who started it to its handler.
\<close>
theorem stop_command_keeps_menu_counterexample:
  "fst (stop demo_env demo_ctx demo_started) = None
   \<and> message (menu (heap (snd (stop demo_env demo_ctx demo_started)) 0)) = Some 0
   \<and> running (menu (heap (snd (stop demo_env demo_ctx demo_started)) 0))
   \<and> effects (snd (stop demo_env demo_ctx demo_started))
       = effects demo_started @ [PlayerCall 7 P_stop, Reply StoppedPlayer]
   \<and> button_pressed PauseButton demo_env 0 \<lparr>member = ''ann''\<rparr> (snd (stop demo_env demo_ctx demo_started))
       = snd (on_pause_button demo_env 0 \<lparr>member = ''ann''\<rparr> (snd (stop demo_env demo_ctx demo_started)))"
proof -
  have reg: "controllers demo_started (guild demo_ctx) = Some 0"
    by (simp add: demo_started_simps demo_ctx_def)
  let ?s = "snd (stop demo_env demo_ctx demo_started)"
  have st: "stop demo_env demo_ctx demo_started =
     (None, emit (Reply StoppedPlayer)
        (update 0 (\<lambda>c. c\<lparr>queue := []\<rparr>)
          (update 0 (\<lambda>c. c\<lparr>is_single_loop := False\<rparr>)
            (update 0 (\<lambda>c. c\<lparr>is_queue_loop := False\<rparr>)
              (emit (PlayerCall 7 P_stop) demo_started)))))"
    by (simp add: stop_def get_controller_present [OF reg] demo_env_def demo_started_simps Let_def)
  have a: "fst (stop demo_env demo_ctx demo_started) = None"
    "message (menu (heap ?s 0)) = Some 0" "running (menu (heap ?s 0))"
    "effects ?s = effects demo_started @ [PlayerCall 7 P_stop, Reply StoppedPlayer]"
    "menu_ctx (menu (heap ?s 0)) = Some demo_ctx"
    by (simp_all add: st demo_started_simps)
  have au: "author demo_ctx = ''ann''" by (simp add: demo_ctx_def)
  have bp: "button_pressed PauseButton demo_env 0 \<lparr>member = ''ann''\<rparr> ?s
       = snd (on_pause_button demo_env 0 \<lparr>member = ''ann''\<rparr> ?s)"
    using a(3,5) au by (simp add: button_pressed_def reaction_check_def)
  from a(1,2,3,4) bp show ?thesis by (intro conjI)
qed

section \<open>Button presses and cooldowns\<close>

lemma show_menu_cooldowns:
  "cooldowns (snd (show_menu ctx r m)) = cooldowns m"
  by (simp add: show_menu_def update_menu_def menu_start_def Let_def split: option.splits)







end
